theory Spec2Isabelle
  imports Complex_Main
begin

section \<open>Gesture pipeline: a shallow embedding of the backend\<close>

text \<open>
  Python floats are idealised as \<^typ>\<open>real\<close>, Python ints as \<^typ>\<open>int\<close> (or
  \<^typ>\<open>nat\<close> for counters that only grow). Mutable objects become records that the
  operations take and return; every \<^verbatim>\<open>raise\<close> is a value of \<open>py_error\<close>. Clock
  reads (\<^verbatim>\<open>time.time()\<close>, \<^verbatim>\<open>time.perf_counter()\<close>) are explicit arguments.
\<close>

datatype py_error =
  ValueError | ZeroDivisionError | TypeError | QueueFull | QueueEmpty | InferenceError

subsection \<open>Shared data (core/types.py)\<close>

datatype HandLabel = LEFT | RIGHT

fun label_value :: "HandLabel \<Rightarrow> string" where
  "label_value LEFT = ''Left''"
| "label_value RIGHT = ''Right''"

datatype GestureType =
  NONE | FINGER_COUNT | PINCH | SWIPE_LEFT | SWIPE_RIGHT | SWIPE_UP | SWIPE_DOWN
  | THUMBS_UP | THUMBS_DOWN | FIST | OPEN_PALM | PEACE | OK_SIGN | POINTING


record Landmark =
  lm_x :: real
  lm_y :: real
  lm_z :: real

record HandLandmarks =
  hand_label :: HandLabel
  landmarks :: "Landmark list"
  hand_confidence :: real

record ExtractionResult =
  hands :: "HandLandmarks list"
  extraction_latency_ms :: real
  model_confidence :: real
  frame_timestamp :: real


record FingerStates =
  thumb :: bool
  index :: bool
  middle :: bool
  ring :: bool
  pinky :: bool



text \<open>The values a \<^verbatim>\<open>raw_output\<close> dictionary holds; a dictionary keeps its keys in
  insertion order.\<close>

datatype py_value =
  PyNone | PyBool bool | PyInt int | PyFloat real | PyStr string
  | PyList "py_value list" | PyDict "(string \<times> py_value) list"


record InferenceResult =
  gesture_type :: GestureType
  confidence :: real
  raw_output :: "(string \<times> py_value) list"
  inference_latency_ms :: real
  finger_count :: "int option"
  finger_states :: "FingerStates option"
  pinch_distance :: "real option"
  gesture_velocity :: "real option"

text \<open>Python's \<^verbatim>\<open>int(x)\<close> on a float: truncation towards zero.\<close>

definition py_int :: "real \<Rightarrow> int" where
  "py_int r = (if 0 \<le> r then \<lfloor>r\<rfloor> else \<lceil>r\<rceil>)"

subsection \<open>Frame buffer (pipelines/ingestion/camera.py)\<close>

text \<open>
  \<^verbatim>\<open>asyncio.Queue(maxsize)\<close>: a FIFO, oldest element first. A queue with
  \<^verbatim>\<open>maxsize <= 0\<close> is never full.
\<close>

definition queue_full :: "int \<Rightarrow> 'f list \<Rightarrow> bool" where
  "queue_full maxsize q = (if maxsize \<le> 0 then False else maxsize \<le> int (length q))"

definition put_nowait :: "int \<Rightarrow> 'f list \<Rightarrow> 'f \<Rightarrow> py_error + 'f list" where
  "put_nowait maxsize q item = (if queue_full maxsize q then Inl QueueFull else Inr (q @ [item]))"

definition get_nowait :: "'f list \<Rightarrow> py_error + ('f \<times> 'f list)" where
  "get_nowait q = (case q of [] \<Rightarrow> Inl QueueEmpty | item # rest \<Rightarrow> Inr (item, rest))"

record 'f CameraIngestion =
  buffer_size :: int
  frame_buffer :: "'f list"
  frame_count :: nat
  dropped_frames :: nat

text \<open>
  The \<^verbatim>\<open>try: put_nowait ... except QueueFull: try: get_nowait; put_nowait;
  dropped += 1 except: pass\<close> block of \<^verbatim>\<open>_capture_loop\<close>, for one captured frame.
\<close>

definition enqueue_captured :: "'f CameraIngestion \<Rightarrow> 'f \<Rightarrow> 'f CameraIngestion" where
  "enqueue_captured s captured =
     (case put_nowait (buffer_size s) (frame_buffer s) captured of
        Inr q \<Rightarrow> s\<lparr>frame_buffer := q, frame_count := frame_count s + 1\<rparr>
      | Inl _ \<Rightarrow>
          (case get_nowait (frame_buffer s) of
             Inl _ \<Rightarrow> s
           | Inr (oldest, q1) \<Rightarrow>
               (case put_nowait (buffer_size s) q1 captured of
                  Inl _ \<Rightarrow> s\<lparr>frame_buffer := q1\<rparr>
                | Inr q2 \<Rightarrow> s\<lparr>frame_buffer := q2, dropped_frames := dropped_frames s + 1\<rparr>)))"

subsection \<open>Orchestrator (pipelines/orchestrator.py)\<close>

datatype OrchestratorState = IDLE | INITIALIZING | RUNNING | PAUSED | STOPPING | STOPPED | ERROR

datatype CaptureState =
  CAP_IDLE | CAP_INITIALIZING | CAPTURING | CAP_PAUSED | CAP_STOPPING | CAP_STOPPED | CAP_ERROR

record PipelineOrchestrator =
  max_consecutive_errors :: int
  orch_state :: OrchestratorState
  orch_running :: bool
  orch_paused :: bool
  consecutive_errors :: int
  errors_count :: nat
  frames_processed :: nat
  ingestion_state :: CaptureState

text \<open>
  What one pass through the body of \<^verbatim>\<open>while self._running\<close> meets:
  no frame in the buffer, a frame that goes through every stage, a frame on which
  \<^verbatim>\<open>_process_frame\<close> raises, an exception raised by the loop body outside
  \<^verbatim>\<open>_process_frame\<close>, or the cancellation of the task.
\<close>

datatype frame_event = NoFrame | FrameOk | FrameRaises | LoopRaises | Cancelled

definition is_exception :: "frame_event \<Rightarrow> bool" where
  "is_exception e = (e = FrameRaises \<or> e = LoopRaises)"

definition handle_error :: "PipelineOrchestrator \<Rightarrow> PipelineOrchestrator" where
  "handle_error s =
     (let s1 = s\<lparr>consecutive_errors := consecutive_errors s + 1,
                 errors_count := errors_count s + 1\<rparr>
      in if max_consecutive_errors s1 \<le> consecutive_errors s1
         then s1\<lparr>orch_running := False, orch_state := ERROR\<rparr>
         else s1)"

definition loop_body :: "frame_event \<Rightarrow> PipelineOrchestrator \<Rightarrow> PipelineOrchestrator" where
  "loop_body e s =
     (if orch_paused s then s
      else case e of
          NoFrame \<Rightarrow> s
        | FrameOk \<Rightarrow> s\<lparr>frames_processed := frames_processed s + 1, consecutive_errors := 0\<rparr>
        | FrameRaises \<Rightarrow> handle_error (s\<lparr>errors_count := errors_count s + 1\<rparr>)
        | LoopRaises \<Rightarrow> handle_error s
        | Cancelled \<Rightarrow> s)"

fun processing_loop :: "frame_event list \<Rightarrow> PipelineOrchestrator \<Rightarrow> PipelineOrchestrator" where
  "processing_loop [] s = s"
| "processing_loop (e # es) s =
     (if \<not> orch_running s then s
      else if e = Cancelled then s
      else processing_loop es (loop_body e s))"

text \<open>\<^verbatim>\<open>stop()\<close>, the one operation of the orchestrator that stops the capture.\<close>

definition stop :: "PipelineOrchestrator \<Rightarrow> PipelineOrchestrator" where
  "stop s =
     (if orch_state s = STOPPED then s
      else s\<lparr>orch_running := False, ingestion_state := CAP_STOPPED, orch_state := STOPPED\<rparr>)"

definition pause :: "PipelineOrchestrator \<Rightarrow> PipelineOrchestrator" where
  "pause s = (if orch_state s = RUNNING then s\<lparr>orch_paused := True, orch_state := PAUSED\<rparr> else s)"

definition resume :: "PipelineOrchestrator \<Rightarrow> PipelineOrchestrator" where
  "resume s = (if orch_state s = PAUSED then s\<lparr>orch_paused := False, orch_state := RUNNING\<rparr> else s)"

definition running_orchestrator :: "int \<Rightarrow> PipelineOrchestrator" where
  "running_orchestrator n =
     \<lparr>max_consecutive_errors = n, orch_state = RUNNING, orch_running = True,
      orch_paused = False, consecutive_errors = 0, errors_count = 0,
      frames_processed = 0, ingestion_state = CAPTURING\<rparr>"

subsection \<open>Inference engine (pipelines/inference/engine.py)\<close>















subsection \<open>Event dispatcher (pipelines/output/dispatcher.py)\<close>

text \<open>
  A listener is a callable, known by its identity. The two topic tables are
  dictionaries from event type to a list of listeners, the two global tables are lists.
\<close>

type_synonym listener = nat


record EventDispatcher =
  listeners :: "string \<rightharpoonup> listener list"
  async_listeners :: "string \<rightharpoonup> listener list"
  global_listeners :: "listener list"
  async_global_listeners :: "listener list"

definition new_dispatcher :: EventDispatcher where
  "new_dispatcher = \<lparr>listeners = Map.empty, async_listeners = Map.empty,
                      global_listeners = [], async_global_listeners = []\<rparr>"

text \<open>\<^verbatim>\<open>list.remove(x)\<close>: removes the first element equal to \<open>x\<close>, raises
  \<^verbatim>\<open>ValueError\<close> when there is none.\<close>

fun list_remove :: "'a \<Rightarrow> 'a list \<Rightarrow> py_error + 'a list" where
  "list_remove x [] = Inl ValueError"
| "list_remove x (y # ys) =
     (if y = x then Inr ys
      else case list_remove x ys of Inl err \<Rightarrow> Inl err | Inr zs \<Rightarrow> Inr (y # zs))"

text \<open>
  The unsubscribe closures that the four subscribe operations return, as data:
  each remembers its listener (and its event type), and \<open>call_handle\<close> runs its body
  on the dispatcher as it is at the time of the call.
\<close>

datatype unsubscribe_handle =
  UnsubListener string listener
  | UnsubAsyncListener string listener
  | UnsubGlobalListener listener
  | UnsubAsyncGlobalListener listener

definition add_listener ::
  "string \<Rightarrow> listener \<Rightarrow> EventDispatcher \<Rightarrow> unsubscribe_handle \<times> EventDispatcher" where
  "add_listener et l d =
     (let registered = (case listeners d et of None \<Rightarrow> [] | Some ls \<Rightarrow> ls)
      in (UnsubListener et l, d\<lparr>listeners := (listeners d)(et \<mapsto> registered @ [l])\<rparr>))"


definition add_global_listener ::
  "listener \<Rightarrow> EventDispatcher \<Rightarrow> unsubscribe_handle \<times> EventDispatcher" where
  "add_global_listener l d =
     (UnsubGlobalListener l, d\<lparr>global_listeners := global_listeners d @ [l]\<rparr>)"


fun call_handle :: "unsubscribe_handle \<Rightarrow> EventDispatcher \<Rightarrow> py_error + EventDispatcher" where
  "call_handle (UnsubListener et l) d =
     (case listeners d et of
        None \<Rightarrow> Inr d
      | Some ls \<Rightarrow>
          (case list_remove l ls of
             Inl err \<Rightarrow> Inl err
           | Inr ls' \<Rightarrow> Inr (d\<lparr>listeners := (listeners d)(et \<mapsto> ls')\<rparr>)))"
| "call_handle (UnsubAsyncListener et l) d =
     (case async_listeners d et of
        None \<Rightarrow> Inr d
      | Some ls \<Rightarrow>
          (case list_remove l ls of
             Inl err \<Rightarrow> Inl err
           | Inr ls' \<Rightarrow> Inr (d\<lparr>async_listeners := (async_listeners d)(et \<mapsto> ls')\<rparr>)))"
| "call_handle (UnsubGlobalListener l) d =
     (case list_remove l (global_listeners d) of
        Inl err \<Rightarrow> Inl err
      | Inr ls' \<Rightarrow> Inr (d\<lparr>global_listeners := ls'\<rparr>))"
| "call_handle (UnsubAsyncGlobalListener l) d =
     (case list_remove l (async_global_listeners d) of
        Inl err \<Rightarrow> Inl err
      | Inr ls' \<Rightarrow> Inr (d\<lparr>async_global_listeners := ls'\<rparr>))"

definition clear :: "EventDispatcher \<Rightarrow> EventDispatcher" where
  "clear d = new_dispatcher"











subsection \<open>One-Euro filter (features/virtual_mouse/filters.py)\<close>

record LowPassFilter =
  lp_alpha :: real
  lp_y :: "real option"
  lp_s :: "real option"

definition new_low_pass :: LowPassFilter where
  "new_low_pass = \<lparr>lp_alpha = 1, lp_y = None, lp_s = None\<rparr>"

text \<open>\<^verbatim>\<open>LowPassFilter.filter(value, alpha)\<close>. With a last value but no smoothed
  value the arithmetic on \<^verbatim>\<open>None\<close> raises \<^verbatim>\<open>TypeError\<close>.\<close>

definition low_pass_filter ::
  "real \<Rightarrow> real option \<Rightarrow> LowPassFilter \<Rightarrow> py_error + real \<times> LowPassFilter" where
  "low_pass_filter v a f =
     (let f1 = (case a of None \<Rightarrow> f | Some a' \<Rightarrow> f\<lparr>lp_alpha := a'\<rparr>)
      in case lp_y f1 of
           None \<Rightarrow> Inr (v, f1\<lparr>lp_s := Some v, lp_y := Some v\<rparr>)
         | Some _ \<Rightarrow>
             (case lp_s f1 of
                None \<Rightarrow> Inl TypeError
              | Some s \<Rightarrow>
                  (let s' = lp_alpha f1 * v + (1 - lp_alpha f1) * s
                   in Inr (s', f1\<lparr>lp_s := Some s', lp_y := Some v\<rparr>))))"

definition has_last_value :: "LowPassFilter \<Rightarrow> bool" where
  "has_last_value f = (lp_y f \<noteq> None)"

definition low_pass_reset :: "LowPassFilter \<Rightarrow> LowPassFilter" where
  "low_pass_reset f = f\<lparr>lp_y := None, lp_s := None\<rparr>"

record OneEuroFilter =
  oe_freq :: real
  oe_min_cutoff :: real
  oe_beta :: real
  oe_d_cutoff :: real
  oe_x :: LowPassFilter
  oe_dx :: LowPassFilter
  oe_last_time :: "real option"

definition new_one_euro :: "real \<Rightarrow> real \<Rightarrow> real \<Rightarrow> real \<Rightarrow> OneEuroFilter" where
  "new_one_euro freq min_cutoff beta d_cutoff =
     \<lparr>oe_freq = freq, oe_min_cutoff = min_cutoff, oe_beta = beta, oe_d_cutoff = d_cutoff,
      oe_x = new_low_pass, oe_dx = new_low_pass, oe_last_time = None\<rparr>"

text \<open>\<^verbatim>\<open>OneEuroFilter._alpha\<close>; each float division raises on a zero divisor.\<close>

definition alpha :: "real \<Rightarrow> real \<Rightarrow> py_error + real" where
  "alpha cutoff freq =
     (if 2 * pi * cutoff = 0 then Inl ZeroDivisionError
      else let tau = 1 / (2 * pi * cutoff)
       in if freq = 0 then Inl ZeroDivisionError
      else let te = 1 / freq
       in if te = 0 then Inl ZeroDivisionError
      else if 1 + tau / te = 0 then Inl ZeroDivisionError
      else Inr (1 / (1 + tau / te)))"

text \<open>
  \<^verbatim>\<open>OneEuroFilter.filter(x, timestamp)\<close>; \<open>now\<close> is \<^verbatim>\<open>time.time()\<close>, read when
  \<^verbatim>\<open>timestamp\<close> is \<^verbatim>\<open>None\<close> or zero (\<^verbatim>\<open>timestamp or time.time()\<close>).
\<close>

definition one_euro_filter ::
  "real \<Rightarrow> real option \<Rightarrow> real \<Rightarrow> OneEuroFilter \<Rightarrow> py_error + real \<times> OneEuroFilter" where
  "one_euro_filter x timestamp now f =
     (let freq = (case timestamp of
                    None \<Rightarrow> oe_freq f
                  | Some t \<Rightarrow>
                      (case oe_last_time f of
                         None \<Rightarrow> oe_freq f
                       | Some lt \<Rightarrow> if 0 < t - lt then 1 / (t - lt) else oe_freq f));
          last_time = (case timestamp of
                         None \<Rightarrow> now
                       | Some t \<Rightarrow> if t = 0 then now else t);
          f1 = f\<lparr>oe_freq := freq, oe_last_time := Some last_time\<rparr>;
          prev_x = (case lp_y (oe_x f1) of None \<Rightarrow> x | Some p \<Rightarrow> p);
          dx = (x - prev_x) * freq
      in case alpha (oe_d_cutoff f1) freq of
           Inl err \<Rightarrow> Inl err
         | Inr ed_alpha \<Rightarrow>
             (case low_pass_filter dx (Some ed_alpha) (oe_dx f1) of
                Inl err \<Rightarrow> Inl err
              | Inr (edx, dx_filter) \<Rightarrow>
                  (let cutoff = oe_min_cutoff f1 + oe_beta f1 * \<bar>edx\<bar>
                   in case alpha cutoff freq of
                        Inl err \<Rightarrow> Inl err
                      | Inr a \<Rightarrow>
                          (case low_pass_filter x (Some a) (oe_x f1) of
                             Inl err \<Rightarrow> Inl err
                           | Inr (out, x_filter) \<Rightarrow>
                               Inr (out, f1\<lparr>oe_dx := dx_filter, oe_x := x_filter\<rparr>)))))"

definition one_euro_reset :: "OneEuroFilter \<Rightarrow> OneEuroFilter" where
  "one_euro_reset f =
     f\<lparr>oe_x := low_pass_reset (oe_x f), oe_dx := low_pass_reset (oe_dx f), oe_last_time := None\<rparr>"

record OneEuroFilter2D =
  filter_x :: OneEuroFilter
  filter_y :: OneEuroFilter

definition new_one_euro_2d :: "real \<Rightarrow> real \<Rightarrow> real \<Rightarrow> real \<Rightarrow> OneEuroFilter2D" where
  "new_one_euro_2d freq min_cutoff beta d_cutoff =
     \<lparr>filter_x = new_one_euro freq min_cutoff beta d_cutoff,
      filter_y = new_one_euro freq min_cutoff beta d_cutoff\<rparr>"

definition one_euro_filter_2d ::
  "real \<Rightarrow> real \<Rightarrow> real option \<Rightarrow> real \<Rightarrow> OneEuroFilter2D
     \<Rightarrow> py_error + (real \<times> real) \<times> OneEuroFilter2D" where
  "one_euro_filter_2d x y timestamp now f =
     (case one_euro_filter x timestamp now (filter_x f) of
        Inl err \<Rightarrow> Inl err
      | Inr (fx, filter_x') \<Rightarrow>
          (case one_euro_filter y timestamp now (filter_y f) of
             Inl err \<Rightarrow> Inl err
           | Inr (fy, filter_y') \<Rightarrow>
               Inr ((fx, fy), \<lparr>filter_x = filter_x', filter_y = filter_y'\<rparr>)))"

definition one_euro_reset_2d :: "OneEuroFilter2D \<Rightarrow> OneEuroFilter2D" where
  "one_euro_reset_2d f =
     \<lparr>filter_x = one_euro_reset (filter_x f), filter_y = one_euro_reset (filter_y f)\<rparr>"

text \<open>A signal is fed to the filter sample by sample; a sample is the value, its
  timestamp and the clock at the call. The outputs are collected in order.\<close>

type_synonym sample = "real \<times> real option \<times> real"



text \<open>A filter with positive frequencies and a non-negative speed coefficient, whose two
  low-pass stages each hold a smoothed value exactly when they hold a last value.\<close>

definition low_pass_consistent :: "LowPassFilter \<Rightarrow> bool" where
  "low_pass_consistent f = ((lp_y f = None) = (lp_s f = None))"

definition filter_ok :: "OneEuroFilter \<Rightarrow> bool" where
  "filter_ok f =
     (0 < oe_freq f \<and> 0 < oe_min_cutoff f \<and> 0 \<le> oe_beta f \<and> 0 < oe_d_cutoff f
      \<and> low_pass_consistent (oe_x f) \<and> low_pass_consistent (oe_dx f))"


fun recorded_time :: "sample \<Rightarrow> real" where
  "recorded_time (x, timestamp, now) =
     (case timestamp of None \<Rightarrow> now | Some t \<Rightarrow> if t = 0 then now else t)"




subsection \<open>Volume-control classifier (features/volume_control/classifier.py)\<close>

record VolumeControlConfig =
  pinch_threshold_min :: real
  pinch_threshold_max :: real
  volume_min :: real
  volume_max :: real
  smoothing_factor :: real
  smoothing_enabled :: bool
  mute_enabled :: bool
  mute_hold_duration_ms :: int
  preferred_hand :: string

definition default_volume_config :: VolumeControlConfig where
  "default_volume_config =
     \<lparr>pinch_threshold_min = 3 / 100, pinch_threshold_max = 15 / 100, volume_min = 0,
      volume_max = 1, smoothing_factor = 3 / 10, smoothing_enabled = True,
      mute_enabled = True, mute_hold_duration_ms = 1000, preferred_hand = ''Right''\<rparr>"

record VolumeControlClassifier =
  vc_config :: VolumeControlConfig
  current_volume :: real
  fist_start_time :: "real option"
  is_muted :: bool
  last_pinch_distance :: real

definition new_volume_classifier :: "VolumeControlConfig \<Rightarrow> VolumeControlClassifier" where
  "new_volume_classifier cfg =
     \<lparr>vc_config = cfg, current_volume = 1 / 2, fist_start_time = None, is_muted = False,
      last_pinch_distance = 0\<rparr>"

definition volume_reset :: "VolumeControlClassifier \<Rightarrow> VolumeControlClassifier" where
  "volume_reset s = s\<lparr>current_volume := 1 / 2, fist_start_time := None, is_muted := False\<rparr>"

text \<open>\<^verbatim>\<open>_get_preferred_hand\<close> (the cursor classifier's \<^verbatim>\<open>_get_tracking_hand\<close> is the
  same function): the first hand with the preferred label, else the first hand.\<close>

definition get_preferred_hand :: "string \<Rightarrow> ExtractionResult \<Rightarrow> HandLandmarks option" where
  "get_preferred_hand preferred extraction =
     (case hands extraction of
        [] \<Rightarrow> None
      | first # _ \<Rightarrow>
          if preferred = ''Any'' then Some first
          else (case find (\<lambda>hand. label_value (hand_label hand) = preferred) (hands extraction) of
                  Some hand \<Rightarrow> Some hand
                | None \<Rightarrow> Some first))"

text \<open>The Euclidean distance between thumb tip (4) and index tip (8), in normalised
  coordinates; both classifiers compute it in line.\<close>

definition thumb_index_distance :: "Landmark list \<Rightarrow> real" where
  "thumb_index_distance lms =
     sqrt ((lm_x (lms ! 4) - lm_x (lms ! 8))\<^sup>2 + (lm_y (lms ! 4) - lm_y (lms ! 8))\<^sup>2)"

record PinchState =
  ps_distance :: real
  ps_is_pinched :: bool
  ps_mapped_volume :: real
  ps_hand_label :: string

definition calculate_pinch_state ::
  "VolumeControlConfig \<Rightarrow> real \<Rightarrow> HandLandmarks \<Rightarrow> py_error + PinchState" where
  "calculate_pinch_state cfg distance hand =
     (let clamped = max (pinch_threshold_min cfg) (min distance (pinch_threshold_max cfg));
          range_size = pinch_threshold_max cfg - pinch_threshold_min cfg
      in if range_size = 0 then Inl ZeroDivisionError
         else (let normalized = (clamped - pinch_threshold_min cfg) / range_size;
                   volume_range = volume_max cfg - volume_min cfg;
                   mapped_volume = volume_min cfg + normalized * volume_range
               in Inr \<lparr>ps_distance = distance,
                        ps_is_pinched = (distance < pinch_threshold_min cfg),
                        ps_mapped_volume = mapped_volume,
                        ps_hand_label = label_value (hand_label hand)\<rparr>))"

definition check_fist :: "Landmark list \<Rightarrow> bool" where
  "check_fist lms =
     list_all (\<lambda>(tip, pip). \<not> lm_y (lms ! tip) < lm_y (lms ! pip))
       (zip [8, 12, 16, 20] [6, 10, 14, 18])"

definition smooth_volume :: "VolumeControlClassifier \<Rightarrow> real \<Rightarrow> real" where
  "smooth_volume s target =
     smoothing_factor (vc_config s) * target
       + (1 - smoothing_factor (vc_config s)) * current_volume s"

text \<open>The keyword arguments of \<^verbatim>\<open>_create_result\<close>; \<open>None\<close> is an argument that
  was not passed.\<close>

record volume_kwargs =
  kw_volume_level :: "real option"
  kw_is_muted :: "bool option"
  kw_pinch_distance :: "real option"
  kw_mute_toggled :: "bool option"
  kw_fist_hold_progress :: "real option"

definition no_volume_kwargs :: volume_kwargs where
  "no_volume_kwargs =
     \<lparr>kw_volume_level = None, kw_is_muted = None, kw_pinch_distance = None,
      kw_mute_toggled = None, kw_fist_hold_progress = None\<rparr>"

definition volume_create_result ::
  "VolumeControlClassifier \<Rightarrow> real \<Rightarrow> GestureType \<Rightarrow> real \<Rightarrow> volume_kwargs \<Rightarrow> InferenceResult" where
  "volume_create_result s latency gesture conf kw =
     (let level = (case kw_volume_level kw of None \<Rightarrow> current_volume s | Some v \<Rightarrow> v)
      in \<lparr>gesture_type = gesture,
          confidence = conf,
          raw_output =
            [(''volume_level'', PyFloat level),
             (''volume_percent'', PyInt (py_int (level * 100))),
             (''is_muted'', PyBool (case kw_is_muted kw of None \<Rightarrow> is_muted s | Some m \<Rightarrow> m)),
             (''pinch_distance'',
                PyFloat (case kw_pinch_distance kw of None \<Rightarrow> last_pinch_distance s | Some d \<Rightarrow> d))]
            @ (case kw_mute_toggled kw of None \<Rightarrow> [] | Some b \<Rightarrow> [(''mute_toggled'', PyBool b)])
            @ (case kw_fist_hold_progress kw of
                 None \<Rightarrow> [] | Some p \<Rightarrow> [(''fist_hold_progress'', PyFloat p)]),
          inference_latency_ms = latency,
          finger_count = None,
          finger_states = None,
          pinch_distance = kw_pinch_distance kw,
          gesture_velocity = None\<rparr>)"

text \<open>\<^verbatim>\<open>_handle_fist\<close>; \<open>current_time\<close> is its \<^verbatim>\<open>time.time()\<close>.\<close>

definition handle_fist ::
  "VolumeControlClassifier \<Rightarrow> real \<Rightarrow> real \<Rightarrow> real
     \<Rightarrow> py_error + InferenceResult \<times> VolumeControlClassifier" where
  "handle_fist s latency conf current_time =
     (let start = (case fist_start_time s of None \<Rightarrow> current_time | Some t \<Rightarrow> t);
          s1 = s\<lparr>fist_start_time := Some start\<rparr>;
          hold_duration = (current_time - start) * 1000
      in if real_of_int (mute_hold_duration_ms (vc_config s1)) \<le> hold_duration
         then (let s2 = s1\<lparr>is_muted := \<not> is_muted s1, fist_start_time := None\<rparr>
               in Inr (volume_create_result s2 latency FIST conf
                         (no_volume_kwargs\<lparr>kw_volume_level := Some (current_volume s2),
                                            kw_is_muted := Some (is_muted s2),
                                            kw_mute_toggled := Some True\<rparr>), s2))
         else if mute_hold_duration_ms (vc_config s1) = 0 then Inl ZeroDivisionError
         else Inr (volume_create_result s1 latency FIST conf
                     (no_volume_kwargs\<lparr>kw_volume_level := Some (current_volume s1),
                                        kw_is_muted := Some (is_muted s1),
                                        kw_fist_hold_progress :=
                                          Some (hold_duration
                                                / real_of_int (mute_hold_duration_ms (vc_config s1)))\<rparr>),
                   s1))"

text \<open>\<^verbatim>\<open>VolumeControlClassifier.classify\<close>; \<open>latency\<close> is the time it measures for
  itself, \<open>current_time\<close> the clock that \<^verbatim>\<open>_handle_fist\<close> reads.\<close>

definition volume_classify ::
  "VolumeControlClassifier \<Rightarrow> ExtractionResult \<Rightarrow> real \<Rightarrow> real
     \<Rightarrow> py_error + InferenceResult \<times> VolumeControlClassifier" where
  "volume_classify s extraction current_time latency =
     (case get_preferred_hand (preferred_hand (vc_config s)) extraction of
        None \<Rightarrow> Inr (volume_create_result s latency NONE 0 no_volume_kwargs, s)
      | Some hand \<Rightarrow>
          if length (landmarks hand) < 21
          then Inr (volume_create_result s latency NONE 0 no_volume_kwargs, s)
          else (let distance = thumb_index_distance (landmarks hand);
                    s1 = s\<lparr>last_pinch_distance := distance\<rparr>
                in if mute_enabled (vc_config s1) \<and> check_fist (landmarks hand)
                   then handle_fist s1 latency (hand_confidence hand) current_time
                   else (case calculate_pinch_state (vc_config s1) distance hand of
                           Inl err \<Rightarrow> Inl err
                         | Inr pinch_state \<Rightarrow>
                             (let s2 = s1\<lparr>current_volume :=
                                             (if smoothing_enabled (vc_config s1)
                                              then smooth_volume s1 (ps_mapped_volume pinch_state)
                                              else ps_mapped_volume pinch_state)\<rparr>;
                                  gesture = (if ps_is_pinched pinch_state then PINCH else NONE)
                              in Inr (volume_create_result s2 latency gesture (hand_confidence hand)
                                        (no_volume_kwargs\<lparr>kw_pinch_distance := Some distance,
                                                           kw_volume_level := Some (current_volume s2),
                                                           kw_is_muted := Some (is_muted s2)\<rparr>),
                                      s2)))))"

text \<open>A classifier is fed frames one after the other: the extraction, the clock and the
  latency of each call. The results are collected in order.\<close>

type_synonym frame = "ExtractionResult \<times> real \<times> real"

fun volume_classify_all ::
  "VolumeControlClassifier \<Rightarrow> frame list
     \<Rightarrow> py_error + InferenceResult list \<times> VolumeControlClassifier" where
  "volume_classify_all s [] = Inr ([], s)"
| "volume_classify_all s ((extraction, current_time, latency) # rest) =
     (case volume_classify s extraction current_time latency of
        Inl err \<Rightarrow> Inl err
      | Inr (result, s1) \<Rightarrow>
          (case volume_classify_all s1 rest of
             Inl err \<Rightarrow> Inl err
           | Inr (results, s2) \<Rightarrow> Inr (result # results, s2)))"

text \<open>Reading a result: the entry \<^verbatim>\<open>mute_toggled\<close> is present and true; the emitted
  \<^verbatim>\<open>volume_level\<close>.\<close>

definition mute_toggled :: "InferenceResult \<Rightarrow> bool" where
  "mute_toggled r = (map_of (raw_output r) ''mute_toggled'' = Some (PyBool True))"


text \<open>The frame shows a fist to the classifier: the preferred hand has its 21 landmarks,
  with the four non-thumb tips not above their PIP joints.\<close>

definition shows_fist :: "string \<Rightarrow> ExtractionResult \<Rightarrow> bool" where
  "shows_fist preferred extraction =
     (case get_preferred_hand preferred extraction of
        None \<Rightarrow> False
      | Some hand \<Rightarrow> 21 \<le> length (landmarks hand) \<and> check_fist (landmarks hand))"

text \<open>Sample hands of 21 landmarks, all at (0.5, 0.5) but for the tips named: a right
  hand with the index tip raised to \<open>y = 0.4\<close> and the thumb tip at distance \<open>d\<close> below it,
  and a right hand with no tip raised (a fist).\<close>

definition landmark_at :: "real \<Rightarrow> real \<Rightarrow> Landmark" where
  "landmark_at px py = \<lparr>lm_x = px, lm_y = py, lm_z = 0\<rparr>"


definition fist_hand :: HandLandmarks where
  "fist_hand =
     \<lparr>hand_label = RIGHT, landmarks = replicate 21 (landmark_at (1 / 2) (1 / 2)),
      hand_confidence = 9 / 10\<rparr>"

definition extraction_of :: "HandLandmarks list \<Rightarrow> ExtractionResult" where
  "extraction_of hs =
     \<lparr>hands = hs, extraction_latency_ms = 5, model_confidence = 9 / 10, frame_timestamp = 0\<rparr>"



text \<open>The clock of a frame, and frames that show the sample fist at the given times.\<close>

definition frame_time :: "frame \<Rightarrow> real" where
  "frame_time fr = fst (snd fr)"

definition fist_frames :: "real list \<Rightarrow> frame list" where
  "fist_frames ts = map (\<lambda>t. (extraction_of [fist_hand], t, 1)) ts"

subsection \<open>Virtual-mouse classifier (features/virtual_mouse/classifier.py)\<close>

datatype MouseState = MOUSE_IDLE | MOVING | CLICKING | DRAGGING

fun mouse_state_value :: "MouseState \<Rightarrow> string" where
  "mouse_state_value MOUSE_IDLE = ''idle''"
| "mouse_state_value MOVING = ''moving''"
| "mouse_state_value CLICKING = ''clicking''"
| "mouse_state_value DRAGGING = ''dragging''"

record CursorCommand =
  cmd_x :: int
  cmd_y :: int
  cmd_state :: MouseState
  cmd_click :: bool
  cmd_drag :: bool
  cmd_release :: bool

record VirtualMouseConfig =
  screen_margin :: int
  gesture_zone_x :: "real \<times> real"
  gesture_zone_y :: "real \<times> real"
  vm_smoothing_enabled :: bool
  smoothing_min_cutoff :: real
  smoothing_beta :: real
  smoothing_d_cutoff :: real
  click_threshold :: real
  double_click_interval_ms :: int
  drag_start_delay_ms :: int
  vm_preferred_hand :: string
  require_pointing_gesture :: bool

definition default_mouse_config :: VirtualMouseConfig where
  "default_mouse_config =
     \<lparr>screen_margin = 50, gesture_zone_x = (2 / 10, 8 / 10), gesture_zone_y = (1 / 10, 9 / 10),
      vm_smoothing_enabled = True, smoothing_min_cutoff = 1, smoothing_beta = 7 / 1000,
      smoothing_d_cutoff = 1, click_threshold = 35 / 1000, double_click_interval_ms = 400,
      drag_start_delay_ms = 200, vm_preferred_hand = ''Right'', require_pointing_gesture = True\<rparr>"

record VirtualMouseClassifier =
  vm_config :: VirtualMouseConfig
  screen_width :: int
  screen_height :: int
  vm_filter :: OneEuroFilter2D
  mouse_state :: MouseState
  click_start_time :: "real option"
  last_click_time :: real
  is_dragging :: bool
  last_position :: "int \<times> int"

text \<open>The constructor; the screen size (configured, detected, or 1920 by 1080) is given.\<close>

definition new_mouse_classifier :: "VirtualMouseConfig \<Rightarrow> int \<Rightarrow> int \<Rightarrow> VirtualMouseClassifier" where
  "new_mouse_classifier cfg width height =
     \<lparr>vm_config = cfg, screen_width = width, screen_height = height,
      vm_filter = new_one_euro_2d 30 (smoothing_min_cutoff cfg) (smoothing_beta cfg)
                    (smoothing_d_cutoff cfg),
      mouse_state = MOUSE_IDLE, click_start_time = None, last_click_time = 0,
      is_dragging = False, last_position = (0, 0)\<rparr>"

definition mouse_reset :: "VirtualMouseClassifier \<Rightarrow> VirtualMouseClassifier" where
  "mouse_reset s =
     s\<lparr>vm_filter := one_euro_reset_2d (vm_filter s), mouse_state := MOUSE_IDLE,
       click_start_time := None, is_dragging := False\<rparr>"

definition check_pointing :: "Landmark list \<Rightarrow> bool" where
  "check_pointing lms =
     (lm_y (lms ! 8) < lm_y (lms ! 6) \<and> lm_y (lms ! 10) < lm_y (lms ! 12)
      \<and> lm_y (lms ! 14) < lm_y (lms ! 16) \<and> lm_y (lms ! 18) < lm_y (lms ! 20))"

definition map_to_screen ::
  "VirtualMouseClassifier \<Rightarrow> real \<Rightarrow> real \<Rightarrow> py_error + real \<times> real" where
  "map_to_screen s norm_x norm_y =
     (let zone_x = gesture_zone_x (vm_config s);
          zone_y = gesture_zone_y (vm_config s);
          cx = max (fst zone_x) (min norm_x (snd zone_x));
          cy = max (fst zone_y) (min norm_y (snd zone_y))
      in if snd zone_x - fst zone_x = 0 then Inl ZeroDivisionError
         else if snd zone_y - fst zone_y = 0 then Inl ZeroDivisionError
         else (let zx = (cx - fst zone_x) / (snd zone_x - fst zone_x);
                   zy = (cy - fst zone_y) / (snd zone_y - fst zone_y);
                   margin = real_of_int (screen_margin (vm_config s))
               in Inr (margin + zx * (real_of_int (screen_width s) - 2 * margin),
                       margin + zy * (real_of_int (screen_height s) - 2 * margin))))"

text \<open>\<^verbatim>\<open>_update_state\<close>: the click and drag state machine, driven by the pinch.\<close>

definition update_state ::
  "VirtualMouseClassifier \<Rightarrow> bool \<Rightarrow> int \<Rightarrow> int \<Rightarrow> real
     \<Rightarrow> CursorCommand \<times> VirtualMouseClassifier" where
  "update_state s is_pinched px py current_time =
     (let command = \<lparr>cmd_x = px, cmd_y = py, cmd_state = mouse_state s, cmd_click = False,
                      cmd_drag = False, cmd_release = False\<rparr>
      in if is_pinched
         then (let start = (case click_start_time s of None \<Rightarrow> current_time | Some t \<Rightarrow> t);
                   s1 = s\<lparr>click_start_time := Some start\<rparr>;
                   hold_duration = (current_time - start) * 1000
               in if real_of_int (drag_start_delay_ms (vm_config s1)) \<le> hold_duration
                     \<and> \<not> is_dragging s1
                  then (command\<lparr>cmd_state := DRAGGING, cmd_drag := True\<rparr>,
                        s1\<lparr>is_dragging := True, mouse_state := DRAGGING\<rparr>)
                  else if is_dragging s1
                  then (command\<lparr>cmd_state := DRAGGING, cmd_drag := True\<rparr>, s1)
                  else (command, s1))
         else (let (command1, s1) =
                     (case click_start_time s of
                        None \<Rightarrow> (command, s)
                      | Some start \<Rightarrow>
                          (let hold_duration = (current_time - start) * 1000;
                               (command2, s2) =
                                 (if is_dragging s
                                  then (command\<lparr>cmd_release := True\<rparr>, s\<lparr>is_dragging := False\<rparr>)
                                  else if hold_duration
                                            < real_of_int (drag_start_delay_ms (vm_config s))
                                  then (command\<lparr>cmd_click := True\<rparr>,
                                        s\<lparr>last_click_time := current_time\<rparr>)
                                  else (command, s))
                           in (command2, s2\<lparr>click_start_time := None\<rparr>)))
               in (command1\<lparr>cmd_state := MOVING\<rparr>, s1\<lparr>mouse_state := MOVING\<rparr>)))"

text \<open>The keyword arguments of the cursor classifier's \<^verbatim>\<open>_create_result\<close>.\<close>

record mouse_kwargs =
  kw_cursor_x :: "int option"
  kw_cursor_y :: "int option"
  kw_click :: "bool option"
  kw_drag :: "bool option"
  kw_release :: "bool option"
  kw_pinch :: "real option"

definition no_mouse_kwargs :: mouse_kwargs where
  "no_mouse_kwargs =
     \<lparr>kw_cursor_x = None, kw_cursor_y = None, kw_click = None, kw_drag = None,
      kw_release = None, kw_pinch = None\<rparr>"

definition mouse_create_result ::
  "VirtualMouseClassifier \<Rightarrow> real \<Rightarrow> GestureType \<Rightarrow> real \<Rightarrow> mouse_kwargs \<Rightarrow> InferenceResult" where
  "mouse_create_result s latency gesture conf kw =
     \<lparr>gesture_type = gesture,
      confidence = conf,
      raw_output =
        [(''cursor_x'', PyInt (case kw_cursor_x kw of None \<Rightarrow> fst (last_position s) | Some v \<Rightarrow> v)),
         (''cursor_y'', PyInt (case kw_cursor_y kw of None \<Rightarrow> snd (last_position s) | Some v \<Rightarrow> v)),
         (''state'', PyStr (mouse_state_value (mouse_state s))),
         (''click'', PyBool (case kw_click kw of None \<Rightarrow> False | Some b \<Rightarrow> b)),
         (''drag'', PyBool (case kw_drag kw of None \<Rightarrow> False | Some b \<Rightarrow> b)),
         (''release'', PyBool (case kw_release kw of None \<Rightarrow> False | Some b \<Rightarrow> b)),
         (''screen_width'', PyInt (screen_width s)),
         (''screen_height'', PyInt (screen_height s))]
        @ (case kw_pinch kw of None \<Rightarrow> [] | Some d \<Rightarrow> [(''pinch_distance'', PyFloat d)]),
      inference_latency_ms = latency,
      finger_count = None,
      finger_states = None,
      pinch_distance = kw_pinch kw,
      gesture_velocity = None\<rparr>"

text \<open>\<^verbatim>\<open>VirtualMouseClassifier.classify\<close>; \<open>current_time\<close> is its \<^verbatim>\<open>time.time()\<close>,
  also passed to the filter as the timestamp.\<close>

definition mouse_classify ::
  "VirtualMouseClassifier \<Rightarrow> ExtractionResult \<Rightarrow> real \<Rightarrow> real
     \<Rightarrow> py_error + InferenceResult \<times> VirtualMouseClassifier" where
  "mouse_classify s extraction current_time latency =
     (let idle = s\<lparr>mouse_state := MOUSE_IDLE\<rparr>
      in case get_preferred_hand (vm_preferred_hand (vm_config s)) extraction of
           None \<Rightarrow> Inr (mouse_create_result idle latency NONE 0 no_mouse_kwargs, idle)
         | Some hand \<Rightarrow>
             if length (landmarks hand) < 21
             then Inr (mouse_create_result idle latency NONE 0 no_mouse_kwargs, idle)
             else (let lms = landmarks hand;
                       is_pointing = check_pointing lms
                   in if require_pointing_gesture (vm_config s) \<and> \<not> is_pointing
                      then Inr (mouse_create_result idle latency NONE 0 no_mouse_kwargs, idle)
                      else (case map_to_screen s (lm_x (lms ! 8)) (lm_y (lms ! 8)) of
                         Inl err \<Rightarrow> Inl err
                       | Inr mapped \<Rightarrow>
                           (case (if vm_smoothing_enabled (vm_config s)
                                  then one_euro_filter_2d (fst mapped) (snd mapped)
                                         (Some current_time) current_time (vm_filter s)
                                  else Inr (mapped, vm_filter s)) of
                              Inl err \<Rightarrow> Inl err
                            | Inr (smoothed, filter') \<Rightarrow>
                                (let px = py_int (fst smoothed);
                                     py = py_int (snd smoothed);
                                     s1 = s\<lparr>vm_filter := filter', last_position := (px, py)\<rparr>;
                                     distance = thumb_index_distance lms;
                                     is_pinched = (distance < click_threshold (vm_config s1));
                                     (command, s2) = update_state s1 is_pinched px py current_time;
                                     gesture = (if cmd_drag command then PINCH
                                                else if cmd_click command then PINCH
                                                else if is_pointing then POINTING
                                                else NONE)
                                 in Inr (mouse_create_result s2 latency gesture (hand_confidence hand)
                                           (\<lparr>kw_cursor_x = Some px, kw_cursor_y = Some py,
                                             kw_click = Some (cmd_click command),
                                             kw_drag = Some (cmd_drag command),
                                             kw_release = Some (cmd_release command),
                                             kw_pinch = Some distance\<rparr>),
                                         s2))))))"

text \<open>The state machine is fed the pinch flag, the cursor position and the clock of one
  frame after the other; the commands are collected in order.\<close>

type_synonym pinch_input = "bool \<times> int \<times> int \<times> real"

fun update_all ::
  "VirtualMouseClassifier \<Rightarrow> pinch_input list \<Rightarrow> CursorCommand list \<times> VirtualMouseClassifier" where
  "update_all s [] = ([], s)"
| "update_all s ((is_pinched, px, py, current_time) # rest) =
     (let (command, s1) = update_state s is_pinched px py current_time;
          (commands, s2) = update_all s1 rest
      in (command # commands, s2))"

definition input_time :: "pinch_input \<Rightarrow> real" where
  "input_time inp = snd (snd (snd inp))"

definition pinched :: "pinch_input \<Rightarrow> bool" where
  "pinched inp = fst inp"

text \<open>Pinched inputs at the given times, and a released input, at a fixed position.\<close>

definition pinches_at :: "real list \<Rightarrow> pinch_input list" where
  "pinches_at ts = map (\<lambda>t. (True, 100, 100, t)) ts"

definition release_at :: "real \<Rightarrow> pinch_input" where
  "release_at t = (False, 100, 100, t)"

text \<open>The three event flags of a command: click, drag, release.\<close>

definition flags :: "CursorCommand \<Rightarrow> bool \<times> bool \<times> bool" where
  "flags c = (cmd_click c, cmd_drag c, cmd_release c)"

text \<open>The cursor classifier as constructed with the default configuration on a 1920 by
  1080 screen.\<close>

definition new_mouse :: VirtualMouseClassifier where
  "new_mouse = new_mouse_classifier default_mouse_config 1920 1080"

subsection \<open>Finger-count classifier of the pipeline (pipelines/inference/classifiers/finger_count.py)\<close>

text \<open>The classifier that \<^verbatim>\<open>core/dependencies.py\<close> registers. Its state is the history
  of raw totals.\<close>

record PipelineFingerCount =
  enable_thumb :: bool
  smoothing_frames :: int
  history :: "int list"


definition pipeline_reset :: "PipelineFingerCount \<Rightarrow> PipelineFingerCount" where
  "pipeline_reset s = s\<lparr>history := []\<rparr>"








subsection \<open>Finger-count classifier of the feature (features/finger_count/classifier.py)\<close>


















text \<open>The classifier fed frames one after the other, as the engine does.\<close>

fun mouse_classify_all ::
  "VirtualMouseClassifier \<Rightarrow> frame list
     \<Rightarrow> py_error + InferenceResult list \<times> VirtualMouseClassifier" where
  "mouse_classify_all s [] = Inr ([], s)"
| "mouse_classify_all s ((extraction, current_time, latency) # rest) =
     (case mouse_classify s extraction current_time latency of
        Inl err \<Rightarrow> Inl err
      | Inr (result, s1) \<Rightarrow>
          (case mouse_classify_all s1 rest of
             Inl err \<Rightarrow> Inl err
           | Inr (results, s2) \<Rightarrow> Inr (result # results, s2)))"

text \<open>Reading a result of the cursor classifier: its click, drag and release entries.\<close>

definition result_flags :: "InferenceResult \<Rightarrow> bool \<times> bool \<times> bool" where
  "result_flags r =
     (map_of (raw_output r) ''click'' = Some (PyBool True),
      map_of (raw_output r) ''drag'' = Some (PyBool True),
      map_of (raw_output r) ''release'' = Some (PyBool True))"

text \<open>
  The frame shows the classifier a hand to track (the preferred hand with its 21
  landmarks, pointing when the configuration requires it); the frame shows a pinch;
  the classifier cannot raise (gesture zones of non-zero width and, when smoothing is
  on, two filters with positive parameters).
\<close>

definition shows_pointer :: "VirtualMouseConfig \<Rightarrow> ExtractionResult \<Rightarrow> bool" where
  "shows_pointer cfg extraction =
     (case get_preferred_hand (vm_preferred_hand cfg) extraction of
        None \<Rightarrow> False
      | Some hand \<Rightarrow> 21 \<le> length (landmarks hand)
          \<and> (require_pointing_gesture cfg \<longrightarrow> check_pointing (landmarks hand)))"

definition shows_pinch :: "VirtualMouseConfig \<Rightarrow> ExtractionResult \<Rightarrow> bool" where
  "shows_pinch cfg extraction =
     (case get_preferred_hand (vm_preferred_hand cfg) extraction of
        None \<Rightarrow> False
      | Some hand \<Rightarrow> thumb_index_distance (landmarks hand) < click_threshold cfg)"

definition mouse_ok :: "VirtualMouseClassifier \<Rightarrow> bool" where
  "mouse_ok s =
     (snd (gesture_zone_x (vm_config s)) \<noteq> fst (gesture_zone_x (vm_config s))
      \<and> snd (gesture_zone_y (vm_config s)) \<noteq> fst (gesture_zone_y (vm_config s))
      \<and> (vm_smoothing_enabled (vm_config s) \<longrightarrow>
           filter_ok (filter_x (vm_filter s)) \<and> filter_ok (filter_y (vm_filter s))))"

definition pinch_inputs :: "VirtualMouseConfig \<Rightarrow> frame list \<Rightarrow> pinch_input list" where
  "pinch_inputs cfg frames = map (\<lambda>fr. (shows_pinch cfg (fst fr), 0, 0, frame_time fr)) frames"

text \<open>The results of a run without the classifier's last state.\<close>

definition results_of :: "py_error + InferenceResult list \<times> 's \<Rightarrow> InferenceResult list option" where
  "results_of outcome = (case outcome of Inl err \<Rightarrow> None | Inr (rs, s) \<Rightarrow> Some rs)"

text \<open>A right hand of 21 landmarks that points (index tip above its PIP joint, the other
  three tips below theirs) with the thumb tip at distance \<open>d\<close> from the index tip, and
  frames that show it at the given times.\<close>

definition pointer_hand :: "real \<Rightarrow> HandLandmarks" where
  "pointer_hand d =
     \<lparr>hand_label = RIGHT,
      landmarks = (replicate 21 (landmark_at (1 / 2) (1 / 2)))
                    [4 := landmark_at (1 / 2) (3 / 10 + d), 8 := landmark_at (1 / 2) (3 / 10),
                     12 := landmark_at (1 / 2) (6 / 10), 16 := landmark_at (1 / 2) (6 / 10),
                     20 := landmark_at (1 / 2) (6 / 10)],
      hand_confidence = 9 / 10\<rparr>"

definition pointer_frames :: "real \<Rightarrow> real list \<Rightarrow> frame list" where
  "pointer_frames d ts = map (\<lambda>t. (extraction_of [pointer_hand d], t, 1)) ts"

section \<open>Properties\<close>

subsection \<open>Frame buffer\<close>

text \<open>
  C3. When the frame buffer holds exactly its capacity of frames (a positive
  \<^verbatim>\<open>buffer_size\<close>; default 5), enqueuing one more frame discards the oldest
  buffered frame, keeps the other frames in order followed by the new frame, and
  increments the dropped counter by one.
\<close>

theorem enqueue_at_capacity_drops_oldest:
  assumes "0 < buffer_size s"
    and "int (length (frame_buffer s)) = buffer_size s"
  shows "frame_buffer (enqueue_captured s captured) = tl (frame_buffer s) @ [captured]
       \<and> dropped_frames (enqueue_captured s captured) = dropped_frames s + 1
       \<and> length (frame_buffer (enqueue_captured s captured)) = length (frame_buffer s)
       \<and> last (frame_buffer (enqueue_captured s captured)) = captured"
proof -
  from assms obtain oldest rest where q: "frame_buffer s = oldest # rest"
    by (cases "frame_buffer s") auto
  have full: "queue_full (buffer_size s) (frame_buffer s)"
    using assms by (simp add: queue_full_def)
  have room: "\<not> queue_full (buffer_size s) rest"
    using assms q by (simp add: queue_full_def)
  show ?thesis
    using full room q by (simp add: enqueue_captured_def put_nowait_def get_nowait_def)
qed

theorem enqueue_at_capacity_witness:
  "enqueue_captured
     \<lparr>buffer_size = 5, frame_buffer = [10, 11, 12, 13, 14 :: nat], frame_count = 5,
      dropped_frames = 0\<rparr> 15
   = \<lparr>buffer_size = 5, frame_buffer = [11, 12, 13, 14, 15], frame_count = 5,
      dropped_frames = 1\<rparr>"
  using enqueue_at_capacity_drops_oldest
    [of "\<lparr>buffer_size = 5, frame_buffer = [10, 11, 12, 13, 14 :: nat], frame_count = 5,
          dropped_frames = 0\<rparr>" 15]
  by (simp add: enqueue_captured_def put_nowait_def get_nowait_def queue_full_def)

subsection \<open>Orchestrator error threshold\<close>

lemma processing_loop_stopped: "\<not> orch_running s \<Longrightarrow> processing_loop es s = s"
  by (cases es) simp_all

lemma handle_error_below:
  assumes "consecutive_errors s + 1 < max_consecutive_errors s"
  shows "handle_error s = s\<lparr>consecutive_errors := consecutive_errors s + 1,
                              errors_count := errors_count s + 1\<rparr>"
  using assms by (simp add: handle_error_def Let_def)

lemma handle_error_reached:
  assumes "max_consecutive_errors s \<le> consecutive_errors s + 1"
  shows "handle_error s = s\<lparr>consecutive_errors := consecutive_errors s + 1,
                              errors_count := errors_count s + 1,
                              orch_running := False, orch_state := ERROR\<rparr>"
  using assms by (simp add: handle_error_def Let_def)

lemma loop_body_exception_below:
  assumes "is_exception e" and "\<not> orch_paused s"
    and "consecutive_errors s + 1 < max_consecutive_errors s"
  shows "orch_state (loop_body e s) = orch_state s
       \<and> orch_running (loop_body e s) = orch_running s
       \<and> orch_paused (loop_body e s) = orch_paused s
       \<and> max_consecutive_errors (loop_body e s) = max_consecutive_errors s
       \<and> ingestion_state (loop_body e s) = ingestion_state s
       \<and> consecutive_errors (loop_body e s) = consecutive_errors s + 1"
  using assms by (auto simp: is_exception_def loop_body_def handle_error_below)

lemma loop_body_exception_reached:
  assumes "is_exception e" and "\<not> orch_paused s"
    and "max_consecutive_errors s \<le> consecutive_errors s + 1"
  shows "orch_state (loop_body e s) = ERROR
       \<and> \<not> orch_running (loop_body e s)
       \<and> ingestion_state (loop_body e s) = ingestion_state s
       \<and> consecutive_errors (loop_body e s) = consecutive_errors s + 1"
  using assms by (auto simp: is_exception_def loop_body_def handle_error_reached)

lemma exceptions_below_threshold:
  assumes "\<forall>e\<in>set es. is_exception e" and "orch_running s" and "\<not> orch_paused s"
    and "consecutive_errors s + int (length es) < max_consecutive_errors s"
  shows "orch_state (processing_loop es s) = orch_state s
       \<and> orch_running (processing_loop es s)
       \<and> \<not> orch_paused (processing_loop es s)
       \<and> max_consecutive_errors (processing_loop es s) = max_consecutive_errors s
       \<and> ingestion_state (processing_loop es s) = ingestion_state s
       \<and> consecutive_errors (processing_loop es s) = consecutive_errors s + int (length es)"
  using assms
proof (induction es arbitrary: s)
  case Nil
  then show ?case by simp
next
  case (Cons e es)
  have e: "is_exception e" and es: "\<forall>x\<in>set es. is_exception x"
    using Cons.prems(1) by simp_all
  have below: "consecutive_errors s + 1 < max_consecutive_errors s"
    using Cons.prems(4) by simp
  note step = loop_body_exception_below [OF e Cons.prems(3) below]
  have not_cancelled: "e \<noteq> Cancelled"
    using e by (auto simp: is_exception_def)
  have run: "processing_loop (e # es) s = processing_loop es (loop_body e s)"
    using Cons.prems(2) not_cancelled by simp
  have "consecutive_errors (loop_body e s) + int (length es) < max_consecutive_errors (loop_body e s)"
    using step Cons.prems(4) by simp
  from Cons.IH [OF es _ _ this] step Cons.prems(2,3)
  show ?case unfolding run by simp
qed

lemma processing_loop_snoc:
  assumes "\<forall>e\<in>set es. is_exception e"
  shows "processing_loop (es @ [e']) s = processing_loop [e'] (processing_loop es s)"
  using assms
proof (induction es arbitrary: s)
  case Nil
  then show ?case by simp
next
  case (Cons e es)
  then have "e \<noteq> Cancelled" by (auto simp: is_exception_def)
  with Cons show ?case by (simp add: processing_loop_stopped)
qed

text \<open>
  C1, as the code has it. From a running, unpaused orchestrator whose counter is zero
  and whose threshold \<^verbatim>\<open>max_consecutive_errors\<close> is at least one: after one
  fewer consecutive per-frame exceptions than the threshold it is still Running; the
  next exception moves it to Error and clears the running flag, which ends the
  per-frame loop, and leaves the state of the capture as it was; a successful frame
  instead resets the counter to zero.
\<close>

theorem consecutive_errors_threshold:
  assumes "orch_state s = RUNNING" and "orch_running s" and "\<not> orch_paused s"
    and "consecutive_errors s = 0" and "1 \<le> max_consecutive_errors s"
    and "\<forall>x\<in>set es. is_exception x" and "is_exception e"
    and "int (length es) = max_consecutive_errors s - 1"
  shows "orch_state (processing_loop es s) = RUNNING
       \<and> orch_running (processing_loop es s)
       \<and> consecutive_errors (processing_loop es s) = max_consecutive_errors s - 1
       \<and> orch_state (processing_loop (es @ [e]) s) = ERROR
       \<and> \<not> orch_running (processing_loop (es @ [e]) s)
       \<and> consecutive_errors (processing_loop (es @ [e]) s) = max_consecutive_errors s
       \<and> ingestion_state (processing_loop (es @ [e]) s) = ingestion_state s
       \<and> orch_state (processing_loop (es @ [FrameOk]) s) = RUNNING
       \<and> consecutive_errors (processing_loop (es @ [FrameOk]) s) = 0"
proof -
  let ?t = "processing_loop es s"
  have "consecutive_errors s + int (length es) < max_consecutive_errors s"
    using assms(4,8) by simp
  note before = exceptions_below_threshold [OF assms(6) assms(2) assms(3) this]
  have cnt: "consecutive_errors ?t = max_consecutive_errors s - 1"
    using before assms(4,8) by simp
  have "max_consecutive_errors ?t \<le> consecutive_errors ?t + 1"
    using before cnt by simp
  note last_step = loop_body_exception_reached [OF assms(7) _ this]
  have not_cancelled: "e \<noteq> Cancelled"
    using assms(7) by (auto simp: is_exception_def)
  have fail: "processing_loop (es @ [e]) s = loop_body e ?t"
    using before not_cancelled by (simp add: processing_loop_snoc [OF assms(6)])
  have ok: "processing_loop (es @ [FrameOk]) s = loop_body FrameOk ?t"
    using before by (simp add: processing_loop_snoc [OF assms(6)])
  have ok_state: "orch_state (loop_body FrameOk ?t) = RUNNING
                \<and> consecutive_errors (loop_body FrameOk ?t) = 0"
    using before assms(1) by (simp add: loop_body_def)
  show ?thesis
    using before cnt last_step assms(1) ok_state unfolding fail ok by simp
qed

theorem consecutive_errors_threshold_witness:
  "orch_state (processing_loop (replicate 9 FrameRaises) (running_orchestrator 10)) = RUNNING
   \<and> orch_state (processing_loop (replicate 9 FrameRaises @ [LoopRaises])
        (running_orchestrator 10)) = ERROR
   \<and> consecutive_errors (processing_loop (replicate 9 FrameRaises @ [FrameOk])
        (running_orchestrator 10)) = 0"
  using consecutive_errors_threshold
    [of "running_orchestrator 10" "replicate 9 FrameRaises" LoopRaises]
  by (simp add: running_orchestrator_def is_exception_def)

theorem error_threshold_leaves_capture_running:
  "orch_state (processing_loop (replicate 10 FrameRaises) (running_orchestrator 10)) = ERROR
   \<and> \<not> orch_running (processing_loop (replicate 10 FrameRaises) (running_orchestrator 10))
   \<and> ingestion_state (processing_loop (replicate 10 FrameRaises) (running_orchestrator 10))
       = CAPTURING
   \<and> ingestion_state (stop (running_orchestrator 10)) = CAP_STOPPED"
  by code_simp

subsection \<open>Inference engine\<close>







subsection \<open>Event dispatcher\<close>







text \<open>
  C9, evaluated on the code: after the first call of an unsubscribe handle has removed
  the only registration of its listener, the second call raises \<^verbatim>\<open>ValueError\<close>
  (for a global handle, and for a topic handle whose topic list is still in the table);
  and when the listener was registered twice, the second call of the handle of the
  second registration removes the first registration as well.
\<close>

theorem unsubscribe_handle_not_idempotent:
  "call_handle (fst (add_global_listener 1 new_dispatcher))
      (snd (add_global_listener 1 new_dispatcher)) = Inr new_dispatcher
   \<and> call_handle (fst (add_global_listener 1 new_dispatcher)) new_dispatcher = Inl ValueError
   \<and> call_handle (fst (add_listener ''gesture_detected'' 1 new_dispatcher))
        (snd (add_listener ''gesture_detected'' 1 new_dispatcher))
        = Inr (new_dispatcher\<lparr>listeners := [''gesture_detected'' \<mapsto> []]\<rparr>)
   \<and> call_handle (fst (add_listener ''gesture_detected'' 1 new_dispatcher))
        (new_dispatcher\<lparr>listeners := [''gesture_detected'' \<mapsto> []]\<rparr>) = Inl ValueError
   \<and> call_handle (fst (add_global_listener 1 (snd (add_global_listener 1 new_dispatcher))))
        (snd (add_global_listener 1 (snd (add_global_listener 1 new_dispatcher))))
        = Inr (snd (add_global_listener 1 new_dispatcher))
   \<and> call_handle (fst (add_global_listener 1 (snd (add_global_listener 1 new_dispatcher))))
        (snd (add_global_listener 1 new_dispatcher)) = Inr new_dispatcher"
  by (simp add: add_global_listener_def add_listener_def new_dispatcher_def)

subsection \<open>One-Euro filter\<close>

lemma one_minus_inverse:
  fixes r :: real
  assumes "0 < r"
  shows "(1 - 1 / (1 + r)) * (1 + 1 / r) = 1"
proof -
  have "1 - 1 / (1 + r) = r / (1 + r)" using assms by (simp add: field_simps)
  moreover have "1 + 1 / r = (1 + r) / r" using assms by (simp add: field_simps)
  ultimately show ?thesis using assms by simp
qed

lemma alpha_value:
  assumes "0 < cutoff" and "0 < freq"
  shows "\<exists>a. alpha cutoff freq = Inr a \<and> 0 < a \<and> a < 1
           \<and> (1 - a) * (1 + 2 * pi * cutoff / freq) = 1"
proof -
  let ?tau = "1 / (2 * pi * cutoff)"
  let ?te = "1 / freq"
  let ?r = "freq / (2 * pi * cutoff)"
  have c1: "2 * pi * cutoff \<noteq> 0" and c2: "freq \<noteq> 0" and c3: "?te \<noteq> 0"
    using assms by simp_all
  have ratio: "?tau / ?te = ?r" by simp
  have r: "0 < ?r" using assms by simp
  then have c4: "1 + ?tau / ?te \<noteq> 0" unfolding ratio by simp
  have "alpha cutoff freq = Inr (1 / (1 + ?tau / ?te))"
    by (simp only: alpha_def Let_def c1 c2 c3 c4 if_False)
  then have val: "alpha cutoff freq = Inr (1 / (1 + ?r))"
    unfolding ratio .
  have pos: "0 < 1 / (1 + ?r)" using r by simp
  have lt: "1 / (1 + ?r) < 1" using r by simp
  have "2 * pi * cutoff / freq = 1 / ?r" by simp
  then have "(1 - 1 / (1 + ?r)) * (1 + 2 * pi * cutoff / freq) = (1 - 1 / (1 + ?r)) * (1 + 1 / ?r)"
    by simp
  also have "\<dots> = 1" using r by (rule one_minus_inverse)
  finally show ?thesis using val pos lt by blast
qed


lemma low_pass_filter_step:
  assumes "low_pass_consistent f"
  shows "\<exists>out f'. low_pass_filter v (Some a) f = Inr (out, f')
       \<and> low_pass_consistent f' \<and> lp_s f' = Some out \<and> lp_y f' = Some v
       \<and> out = (case lp_s f of None \<Rightarrow> v | Some s \<Rightarrow> a * v + (1 - a) * s)"
  using assms
  by (cases "lp_y f"; cases "lp_s f")
     (simp_all add: low_pass_filter_def low_pass_consistent_def Let_def)

lemma one_euro_filter_char:
  assumes ok: "filter_ok f"
  shows "\<exists>a out f'. one_euro_filter x timestamp now f = Inr (out, f')
       \<and> 0 < a \<and> a < 1 \<and> (1 - a) * (1 + 2 * pi * oe_min_cutoff f / oe_freq f') \<le> 1
       \<and> out = (case lp_s (oe_x f) of None \<Rightarrow> x | Some s \<Rightarrow> a * x + (1 - a) * s)
       \<and> filter_ok f' \<and> lp_s (oe_x f') = Some out
       \<and> oe_min_cutoff f' = oe_min_cutoff f
       \<and> oe_last_time f' = Some (recorded_time (x, timestamp, now))
       \<and> oe_freq f' = (case timestamp of
                    None \<Rightarrow> oe_freq f
                  | Some t \<Rightarrow>
                      (case oe_last_time f of
                         None \<Rightarrow> oe_freq f
                       | Some lt \<Rightarrow> if 0 < t - lt then 1 / (t - lt) else oe_freq f))"
proof -
  define freq where "freq = (case timestamp of
                    None \<Rightarrow> oe_freq f
                  | Some t \<Rightarrow>
                      (case oe_last_time f of
                         None \<Rightarrow> oe_freq f
                       | Some lt \<Rightarrow> if 0 < t - lt then 1 / (t - lt) else oe_freq f))"
  define last_time where "last_time = (case timestamp of
                         None \<Rightarrow> now
                       | Some t \<Rightarrow> if t = 0 then now else t)"
  define dx where "dx = (x - (case lp_y (oe_x f) of None \<Rightarrow> x | Some p \<Rightarrow> p)) * freq"
  have freq: "0 < freq"
    using ok by (auto simp: freq_def filter_ok_def split: option.splits)
  obtain eda where eda: "alpha (oe_d_cutoff f) freq = Inr eda"
    using alpha_value [of "oe_d_cutoff f" freq] ok freq by (auto simp: filter_ok_def)
  obtain edx dxf where dxf: "low_pass_filter dx (Some eda) (oe_dx f) = Inr (edx, dxf)"
    and dxc: "low_pass_consistent dxf"
    using low_pass_filter_step [of "oe_dx f" dx eda] ok by (auto simp: filter_ok_def)
  let ?cutoff = "oe_min_cutoff f + oe_beta f * \<bar>edx\<bar>"
  have extra: "0 \<le> oe_beta f * \<bar>edx\<bar>" using ok by (simp add: filter_ok_def)
  have minc: "0 < oe_min_cutoff f" using ok by (simp add: filter_ok_def)
  have cutoff: "0 < ?cutoff" using extra minc by linarith
  obtain a where a: "alpha ?cutoff freq = Inr a"
    and a0: "0 < a" and a1: "a < 1" and a2: "(1 - a) * (1 + 2 * pi * ?cutoff / freq) = 1"
    using alpha_value [OF cutoff freq] by blast
  have rate: "(1 - a) * (1 + 2 * pi * oe_min_cutoff f / freq) \<le> 1"
  proof -
    have "2 * pi * oe_min_cutoff f / freq \<le> 2 * pi * ?cutoff / freq"
      using extra freq by (intro divide_right_mono mult_left_mono) simp_all
    then have "(1 - a) * (1 + 2 * pi * oe_min_cutoff f / freq)
                 \<le> (1 - a) * (1 + 2 * pi * ?cutoff / freq)"
      using a1 by (intro mult_left_mono) simp_all
    then show ?thesis using a2 by simp
  qed
  obtain out xf where xf: "low_pass_filter x (Some a) (oe_x f) = Inr (out, xf)"
    and xc: "low_pass_consistent xf" and xs: "lp_s xf = Some out"
    and out: "out = (case lp_s (oe_x f) of None \<Rightarrow> x | Some s \<Rightarrow> a * x + (1 - a) * s)"
    using low_pass_filter_step [of "oe_x f" x a] ok by (auto simp: filter_ok_def)
  let ?f' = "f\<lparr>oe_freq := freq, oe_last_time := Some last_time, oe_dx := dxf, oe_x := xf\<rparr>"
  have res: "one_euro_filter x timestamp now f = Inr (out, ?f')"
    apply (unfold one_euro_filter_def Let_def)
    apply (fold freq_def last_time_def)
    apply (simp add: dx_def [symmetric] eda dxf a xf)
    done
  have ok': "filter_ok ?f'"
    using ok freq dxc xc by (simp add: filter_ok_def)
  have "oe_freq ?f' = freq" and "oe_last_time ?f' = Some (recorded_time (x, timestamp, now))"
    and "lp_s (oe_x ?f') = Some out" and "oe_min_cutoff ?f' = oe_min_cutoff f"
    using xs by (simp_all add: last_time_def)
  with res a0 a1 rate out ok' show ?thesis
    apply (rule_tac x = a in exI)
    apply (rule_tac x = out in exI)
    apply (rule_tac x = "?f'" in exI)
    apply (simp add: freq_def)
    done
qed
















subsection \<open>Volume-control classifier\<close>


lemma default_volume_fields:
  "preferred_hand default_volume_config = ''Right''"
  "mute_enabled default_volume_config"
  "smoothing_enabled default_volume_config"
  "smoothing_factor default_volume_config = 3 / 10"
  "mute_hold_duration_ms default_volume_config = 1000"
  by (simp_all add: default_volume_config_def)








lemma new_volume_classifier_fields:
  "vc_config (new_volume_classifier cfg) = cfg"
  "current_volume (new_volume_classifier cfg) = 1 / 2"
  "fist_start_time (new_volume_classifier cfg) = None"
  "is_muted (new_volume_classifier cfg) = False"
  by (simp_all add: new_volume_classifier_def)



lemma volume_classify_all_Cons:
  assumes "volume_classify s extraction current_time latency = Inr (r, s1)"
    and "volume_classify_all s1 rest = Inr (rs, s2)"
  shows "volume_classify_all s ((extraction, current_time, latency) # rest) = Inr (r # rs, s2)"
  using assms by simp

lemma volume_classify_all_append:
  assumes "volume_classify_all s xs = Inr (rs, s1)"
    and "volume_classify_all s1 ys = Inr (rs', s2)"
  shows "volume_classify_all s (xs @ ys) = Inr (rs @ rs', s2)"
  using assms
proof (induction xs arbitrary: s rs)
  case Nil
  then show ?case by simp
next
  case (Cons fr xs)
  obtain extraction current_time latency where fr: "fr = (extraction, current_time, latency)"
    by (cases fr) auto
  from Cons.prems(1) obtain r s' rs0
    where step: "volume_classify s extraction current_time latency = Inr (r, s')"
      and rest: "volume_classify_all s' xs = Inr (rs0, s1)" and rs: "rs = r # rs0"
    unfolding fr by (auto split: sum.splits prod.splits)
  from Cons.IH [OF rest Cons.prems(2)] step show ?case
    unfolding fr rs by simp
qed

lemma fist_step:
  assumes "mute_enabled (vc_config s)" and "0 < mute_hold_duration_ms (vc_config s)"
    and "shows_fist (preferred_hand (vc_config s)) extraction"
  shows "\<exists>r s'. volume_classify s extraction t latency = Inr (r, s')
       \<and> vc_config s' = vc_config s
       \<and> (if real_of_int (mute_hold_duration_ms (vc_config s))
               \<le> (t - (case fist_start_time s of None \<Rightarrow> t | Some t0 \<Rightarrow> t0)) * 1000
           then mute_toggled r \<and> fist_start_time s' = None \<and> is_muted s' = (\<not> is_muted s)
           else \<not> mute_toggled r
                \<and> fist_start_time s' = Some (case fist_start_time s of None \<Rightarrow> t | Some t0 \<Rightarrow> t0)
                \<and> is_muted s' = is_muted s)"
proof -
  from assms(3) obtain hand
    where hand: "get_preferred_hand (preferred_hand (vc_config s)) extraction = Some hand"
      and len: "21 \<le> length (landmarks hand)" and fist: "check_fist (landmarks hand)"
    by (auto simp: shows_fist_def split: option.splits)
  have run: "volume_classify s extraction t latency
               = handle_fist (s\<lparr>last_pinch_distance := thumb_index_distance (landmarks hand)\<rparr>)
                   latency (hand_confidence hand) t"
    using hand len fist assms(1) by (simp add: volume_classify_def Let_def)
  show ?thesis
    unfolding run using assms(2)
    by (cases "fist_start_time s")
       (simp_all add: handle_fist_def Let_def mute_toggled_def volume_create_result_def
          no_volume_kwargs_def)
qed


lemma quiet_while_timer_short:
  assumes "mute_enabled (vc_config s)" and "0 < mute_hold_duration_ms (vc_config s)"
    and "fist_start_time s = Some t0"
    and "\<forall>fr\<in>set frames. shows_fist (preferred_hand (vc_config s)) (fst fr)
           \<and> (frame_time fr - t0) * 1000 < real_of_int (mute_hold_duration_ms (vc_config s))"
  shows "\<exists>rs s'. volume_classify_all s frames = Inr (rs, s')
       \<and> map mute_toggled rs = replicate (length frames) False
       \<and> vc_config s' = vc_config s \<and> fist_start_time s' = Some t0
       \<and> is_muted s' = is_muted s"
  using assms
proof (induction frames arbitrary: s)
  case Nil
  then show ?case by simp
next
  case (Cons fr frames)
  obtain extraction t latency where fr: "fr = (extraction, t, latency)"
    by (cases fr) auto
  have fist: "shows_fist (preferred_hand (vc_config s)) extraction"
    and short: "\<not> real_of_int (mute_hold_duration_ms (vc_config s)) \<le> (t - t0) * 1000"
    using Cons.prems(4) by (auto simp: fr frame_time_def)
  from fist_step [OF Cons.prems(1,2) fist, of t latency] short Cons.prems(3)
  obtain r s1 where step: "volume_classify s extraction t latency = Inr (r, s1)"
    and cfg: "vc_config s1 = vc_config s" and quiet: "\<not> mute_toggled r"
    and timer: "fist_start_time s1 = Some t0" and muted: "is_muted s1 = is_muted s"
    by auto
  have "\<exists>rs s'. volume_classify_all s1 frames = Inr (rs, s')
       \<and> map mute_toggled rs = replicate (length frames) False
       \<and> vc_config s' = vc_config s1 \<and> fist_start_time s' = Some t0
       \<and> is_muted s' = is_muted s1"
    using Cons.prems(1,2,4) by (intro Cons.IH) (simp_all add: cfg timer)
  then obtain rs s' where rest: "volume_classify_all s1 frames = Inr (rs, s')"
    and "map mute_toggled rs = replicate (length frames) False"
    and "vc_config s' = vc_config s1" and "fist_start_time s' = Some t0"
    and "is_muted s' = is_muted s1"
    by blast
  then show ?case
    using step quiet cfg muted unfolding fr by simp
qed

lemma quiet_after_restart:
  assumes "mute_enabled (vc_config s)" and "0 < mute_hold_duration_ms (vc_config s)"
    and "fist_start_time s = None"
    and "\<forall>fr\<in>set frames. shows_fist (preferred_hand (vc_config s)) (fst fr)"
    and "\<forall>fr\<in>set frames. \<forall>fr'\<in>set frames.
           (frame_time fr - frame_time fr') * 1000 < real_of_int (mute_hold_duration_ms (vc_config s))"
  shows "\<exists>rs s'. volume_classify_all s frames = Inr (rs, s')
       \<and> map mute_toggled rs = replicate (length frames) False
       \<and> vc_config s' = vc_config s \<and> is_muted s' = is_muted s"
proof (cases frames)
  case Nil
  then show ?thesis by simp
next
  case (Cons fr rest)
  obtain extraction t latency where fr: "fr = (extraction, t, latency)"
    by (cases fr) auto
  have fist: "shows_fist (preferred_hand (vc_config s)) extraction"
    using assms(4) by (simp add: Cons fr)
  have short: "\<not> real_of_int (mute_hold_duration_ms (vc_config s)) \<le> (t - t) * 1000"
    using assms(2) by simp
  from fist_step [OF assms(1,2) fist, of t latency] short assms(3)
  obtain r s1 where step: "volume_classify s extraction t latency = Inr (r, s1)"
    and cfg: "vc_config s1 = vc_config s" and quiet: "\<not> mute_toggled r"
    and timer: "fist_start_time s1 = Some t" and muted: "is_muted s1 = is_muted s"
    by auto
  have "\<exists>rs s'. volume_classify_all s1 rest = Inr (rs, s')
       \<and> map mute_toggled rs = replicate (length rest) False
       \<and> vc_config s' = vc_config s1 \<and> fist_start_time s' = Some t
       \<and> is_muted s' = is_muted s1"
  proof (rule quiet_while_timer_short [OF _ _ timer])
    show "mute_enabled (vc_config s1)" "0 < mute_hold_duration_ms (vc_config s1)"
      using assms(1,2) by (simp_all add: cfg)
    show "\<forall>fr\<in>set rest. shows_fist (preferred_hand (vc_config s1)) (fst fr)
           \<and> (frame_time fr - t) * 1000 < real_of_int (mute_hold_duration_ms (vc_config s1))"
      using assms(4,5) by (auto simp: Cons fr cfg frame_time_def)
  qed
  then obtain rs s' where "volume_classify_all s1 rest = Inr (rs, s')"
    and "map mute_toggled rs = replicate (length rest) False"
    and "vc_config s' = vc_config s1" and "is_muted s' = is_muted s1"
    by blast
  then show ?thesis
    using step quiet cfg muted unfolding Cons fr by simp
qed


text \<open>
  C4, as the code has it. With mute enabled, a positive hold duration and no fist timer
  running, a fist shown on every frame gives: no toggle on the frames before the fist
  has been held for \<^verbatim>\<open>mute_hold_duration_ms\<close> (measured from the first frame);
  \<^verbatim>\<open>mute_toggled=true\<close> on the first frame at or after that; and no toggle on the
  later frames up to \<^verbatim>\<open>mute_hold_duration_ms\<close> after the toggling frame. The muted
  flag is flipped once.
\<close>

theorem mute_toggle_once_per_hold:
  assumes "mute_enabled (vc_config s)" and "0 < mute_hold_duration_ms (vc_config s)"
    and "fist_start_time s = None"
    and "\<forall>fr\<in>set (first # pre @ [hit] @ post).
           shows_fist (preferred_hand (vc_config s)) (fst fr)"
    and "\<forall>fr\<in>set pre. (frame_time fr - frame_time first) * 1000
           < real_of_int (mute_hold_duration_ms (vc_config s))"
    and "real_of_int (mute_hold_duration_ms (vc_config s))
           \<le> (frame_time hit - frame_time first) * 1000"
    and "\<forall>fr\<in>set post. frame_time hit < frame_time fr
           \<and> (frame_time fr - frame_time hit) * 1000
               \<le> real_of_int (mute_hold_duration_ms (vc_config s))"
  shows "\<exists>rs s'. volume_classify_all s (first # pre @ [hit] @ post) = Inr (rs, s')
       \<and> map mute_toggled rs
           = replicate (Suc (length pre)) False @ [True] @ replicate (length post) False
       \<and> is_muted s' = (\<not> is_muted s)"
proof -
  let ?H = "real_of_int (mute_hold_duration_ms (vc_config s))"
  let ?pref = "preferred_hand (vc_config s)"
  obtain e0 t0 l0 where first: "first = (e0, t0, l0)" by (cases first) auto
  obtain eh th lh where hit: "hit = (eh, th, lh)" by (cases hit) auto
  have fist0: "shows_fist ?pref e0" and fisth: "shows_fist ?pref eh"
    and fist_pre: "\<forall>fr\<in>set pre. shows_fist ?pref (fst fr)"
    and fist_post: "\<forall>fr\<in>set post. shows_fist ?pref (fst fr)"
    using assms(4) by (simp_all add: first hit)
  have "\<not> ?H \<le> (t0 - t0) * 1000" using assms(2) by simp
  with fist_step [OF assms(1,2) fist0, of t0 l0] assms(3)
  obtain r0 s1 where step0: "volume_classify s e0 t0 l0 = Inr (r0, s1)"
    and cfg1: "vc_config s1 = vc_config s" and quiet0: "\<not> mute_toggled r0"
    and timer1: "fist_start_time s1 = Some t0" and muted1: "is_muted s1 = is_muted s"
    by auto
  have "\<exists>rs s'. volume_classify_all s1 pre = Inr (rs, s')
       \<and> map mute_toggled rs = replicate (length pre) False
       \<and> vc_config s' = vc_config s1 \<and> fist_start_time s' = Some t0
       \<and> is_muted s' = is_muted s1"
  proof (rule quiet_while_timer_short [OF _ _ timer1])
    show "mute_enabled (vc_config s1)" "0 < mute_hold_duration_ms (vc_config s1)"
      using assms(1,2) by (simp_all add: cfg1)
    show "\<forall>fr\<in>set pre. shows_fist (preferred_hand (vc_config s1)) (fst fr)
           \<and> (frame_time fr - t0) * 1000 < real_of_int (mute_hold_duration_ms (vc_config s1))"
      using fist_pre assms(5) by (simp add: cfg1 first frame_time_def)
  qed
  then obtain rs1 s2 where run1: "volume_classify_all s1 pre = Inr (rs1, s2)"
    and quiet1: "map mute_toggled rs1 = replicate (length pre) False"
    and cfg2: "vc_config s2 = vc_config s" and timer2: "fist_start_time s2 = Some t0"
    and muted2: "is_muted s2 = is_muted s"
    using cfg1 muted1 by auto
  have long: "real_of_int (mute_hold_duration_ms (vc_config s2)) \<le> (th - t0) * 1000"
    using assms(6) by (simp add: cfg2 first hit frame_time_def)
  have "\<exists>r s'. volume_classify s2 eh th lh = Inr (r, s') \<and> vc_config s' = vc_config s2
       \<and> mute_toggled r \<and> fist_start_time s' = None \<and> is_muted s' = (\<not> is_muted s2)"
    using fist_step [of s2 eh th lh] assms(1,2) fisth long timer2 by (simp add: cfg2)
  then obtain rh s3 where steph: "volume_classify s2 eh th lh = Inr (rh, s3)"
    and cfg3: "vc_config s3 = vc_config s" and toggled: "mute_toggled rh"
    and timer3: "fist_start_time s3 = None" and muted3: "is_muted s3 = (\<not> is_muted s)"
    using cfg2 muted2 by auto
  have "\<exists>rs s'. volume_classify_all s3 post = Inr (rs, s')
       \<and> map mute_toggled rs = replicate (length post) False
       \<and> vc_config s' = vc_config s3 \<and> is_muted s' = is_muted s3"
  proof (rule quiet_after_restart [OF _ _ timer3])
    show "mute_enabled (vc_config s3)" "0 < mute_hold_duration_ms (vc_config s3)"
      using assms(1,2) by (simp_all add: cfg3)
    show "\<forall>fr\<in>set post. shows_fist (preferred_hand (vc_config s3)) (fst fr)"
      using fist_post by (simp add: cfg3)
    show "\<forall>fr\<in>set post. \<forall>fr'\<in>set post.
           (frame_time fr - frame_time fr') * 1000 < real_of_int (mute_hold_duration_ms (vc_config s3))"
    proof (intro ballI)
      fix fr fr' assume "fr \<in> set post" and "fr' \<in> set post"
      with assms(7) have "(frame_time fr - frame_time hit) * 1000 \<le> ?H"
        and "frame_time hit < frame_time fr'" by auto
      then have "(frame_time fr - frame_time fr') * 1000 < ?H"
        by (simp add: left_diff_distrib)
      then show "(frame_time fr - frame_time fr') * 1000
                   < real_of_int (mute_hold_duration_ms (vc_config s3))"
        by (simp only: cfg3)
    qed
  qed
  then obtain rs3 s4 where run3: "volume_classify_all s3 post = Inr (rs3, s4)"
    and quiet3: "map mute_toggled rs3 = replicate (length post) False"
    and muted4: "is_muted s4 = (\<not> is_muted s)"
    using muted3 by auto
  have "volume_classify_all s2 ([hit] @ post) = Inr ([rh] @ rs3, s4)"
    using steph run3 by (simp add: hit)
  from volume_classify_all_append [OF run1 this]
  have "volume_classify_all s (first # pre @ [hit] @ post) = Inr (r0 # rs1 @ [rh] @ rs3, s4)"
    using step0 by (simp add: first)
  moreover have "map mute_toggled (r0 # rs1 @ [rh] @ rs3)
           = replicate (Suc (length pre)) False @ [True] @ replicate (length post) False"
    using quiet0 quiet1 toggled quiet3 by simp
  ultimately show ?thesis using muted4 by blast
qed

lemma fist_frame_shows_fist: "shows_fist ''Right'' (extraction_of [fist_hand])"
  by (simp add: shows_fist_def get_preferred_hand_def extraction_of_def fist_hand_def
      check_fist_def landmark_at_def numeral_nat)


theorem mute_toggle_once_per_hold_witness:
  "\<exists>rs s'. volume_classify_all (new_volume_classifier default_volume_config)
              (fist_frames [0, 1 / 2, 1, 3 / 2, 2]) = Inr (rs, s')
          \<and> map mute_toggled rs = [False, False, True, False, False]
          \<and> is_muted s'"
  using mute_toggle_once_per_hold
    [of "new_volume_classifier default_volume_config"
        "(extraction_of [fist_hand], 0, 1)" "fist_frames [1 / 2]"
        "(extraction_of [fist_hand], 1, 1)" "fist_frames [3 / 2, 2]"]
  by (simp add: new_volume_classifier_fields default_volume_fields fist_frame_shows_fist
      fist_frames_def frame_time_def)

lemma fist_frame_classify:
  assumes "vc_config s = default_volume_config"
  shows "volume_classify s (extraction_of [fist_hand]) t latency
           = handle_fist (s\<lparr>last_pinch_distance := 0\<rparr>) latency (9 / 10) t"
proof -
  have hand: "get_preferred_hand ''Right'' (extraction_of [fist_hand]) = Some fist_hand"
    by (simp add: get_preferred_hand_def extraction_of_def fist_hand_def)
  have fist: "check_fist (landmarks fist_hand)" and len: "length (landmarks fist_hand) = 21"
    and dist: "thumb_index_distance (landmarks fist_hand) = 0"
    and conf: "hand_confidence fist_hand = 9 / 10"
    by (simp_all add: fist_hand_def check_fist_def thumb_index_distance_def landmark_at_def
        numeral_nat)
  show ?thesis
    by (simp add: volume_classify_def assms default_volume_fields hand fist len dist conf Let_def)
qed

lemma handle_fist_default:
  assumes "vc_config s = default_volume_config"
  shows "handle_fist s latency conf t =
     (let start = (case fist_start_time s of None \<Rightarrow> t | Some t0 \<Rightarrow> t0)
      in if 1000 \<le> (t - start) * 1000
         then Inr (volume_create_result (s\<lparr>is_muted := \<not> is_muted s, fist_start_time := None\<rparr>)
                     latency FIST conf
                     (no_volume_kwargs\<lparr>kw_volume_level := Some (current_volume s),
                                        kw_is_muted := Some (\<not> is_muted s),
                                        kw_mute_toggled := Some True\<rparr>),
                   s\<lparr>is_muted := \<not> is_muted s, fist_start_time := None\<rparr>)
         else Inr (volume_create_result (s\<lparr>fist_start_time := Some start\<rparr>) latency FIST conf
                     (no_volume_kwargs\<lparr>kw_volume_level := Some (current_volume s),
                                        kw_is_muted := Some (is_muted s),
                                        kw_fist_hold_progress := Some ((t - start) * 1000 / 1000)\<rparr>),
                   s\<lparr>fist_start_time := Some start\<rparr>))"
  by (simp add: handle_fist_def assms default_volume_fields Let_def)

theorem fist_held_on_toggles_again:
  "map_option (map mute_toggled)
     (results_of (volume_classify_all (new_volume_classifier default_volume_config)
        (fist_frames [0, 1 / 2, 1, 3 / 2, 2, 5 / 2])))
     = Some [False, False, True, False, False, True]"
  by (simp add: fist_frames_def fist_frame_classify handle_fist_default results_of_def
      new_volume_classifier_fields new_volume_classifier_def Let_def mute_toggled_def
      volume_create_result_def no_volume_kwargs_def)

subsection \<open>Virtual-mouse classifier\<close>

lemma update_all_append:
  "update_all s (xs @ ys) =
     (fst (update_all s xs) @ fst (update_all (snd (update_all s xs)) ys),
      snd (update_all (snd (update_all s xs)) ys))"
proof (induction xs arbitrary: s)
  case Nil
  then show ?case by simp
next
  case (Cons inp xs)
  obtain b px py t where inp: "inp = (b, px, py, t)" by (cases inp) auto
  show ?case
    unfolding inp by (simp add: Cons.IH case_prod_beta Let_def)
qed

lemma update_pinched:
  "flags (fst (update_state s True px py t))
     = (False,
        is_dragging s \<or> real_of_int (drag_start_delay_ms (vm_config s))
           \<le> (t - (case click_start_time s of None \<Rightarrow> t | Some t0 \<Rightarrow> t0)) * 1000,
        False)
   \<and> is_dragging (snd (update_state s True px py t))
       = (is_dragging s \<or> real_of_int (drag_start_delay_ms (vm_config s))
           \<le> (t - (case click_start_time s of None \<Rightarrow> t | Some t0 \<Rightarrow> t0)) * 1000)
   \<and> click_start_time (snd (update_state s True px py t))
       = Some (case click_start_time s of None \<Rightarrow> t | Some t0 \<Rightarrow> t0)
   \<and> vm_config (snd (update_state s True px py t)) = vm_config s"
  by (auto simp: update_state_def flags_def Let_def)

lemma update_released:
  assumes "click_start_time s = Some t0"
  shows "flags (fst (update_state s False px py t))
     = (\<not> is_dragging s \<and> (t - t0) * 1000 < real_of_int (drag_start_delay_ms (vm_config s)),
        False, is_dragging s)
   \<and> \<not> is_dragging (snd (update_state s False px py t))
   \<and> click_start_time (snd (update_state s False px py t)) = None
   \<and> vm_config (snd (update_state s False px py t)) = vm_config s"
  using assms by (auto simp: update_state_def flags_def Let_def)

lemma hold_short:
  assumes "click_start_time s = Some t0" and "\<not> is_dragging s"
    and "\<forall>inp\<in>set inputs. pinched inp
           \<and> (input_time inp - t0) * 1000 < real_of_int (drag_start_delay_ms (vm_config s))"
  shows "map flags (fst (update_all s inputs)) = replicate (length inputs) (False, False, False)
       \<and> click_start_time (snd (update_all s inputs)) = Some t0
       \<and> \<not> is_dragging (snd (update_all s inputs))
       \<and> vm_config (snd (update_all s inputs)) = vm_config s"
  using assms
proof (induction inputs arbitrary: s)
  case Nil
  then show ?case by simp
next
  case (Cons inp inputs)
  obtain px py t where inp: "inp = (True, px, py, t)"
    using Cons.prems(3) by (cases inp) (auto simp: pinched_def)
  let ?s1 = "snd (update_state s True px py t)"
  have short: "\<not> real_of_int (drag_start_delay_ms (vm_config s)) \<le> (t - t0) * 1000"
    using Cons.prems(3) by (auto simp: inp input_time_def)
  note step = update_pinched [of s px py t]
  have s1: "click_start_time ?s1 = Some t0" "\<not> is_dragging ?s1" "vm_config ?s1 = vm_config s"
    and f1: "flags (fst (update_state s True px py t)) = (False, False, False)"
    using step short Cons.prems(1,2) by simp_all
  have "map flags (fst (update_all ?s1 inputs)) = replicate (length inputs) (False, False, False)
       \<and> click_start_time (snd (update_all ?s1 inputs)) = Some t0
       \<and> \<not> is_dragging (snd (update_all ?s1 inputs))
       \<and> vm_config (snd (update_all ?s1 inputs)) = vm_config ?s1"
    using Cons.prems(3) s1 by (intro Cons.IH) simp_all
  then show ?case
    unfolding inp using f1 s1 by (simp add: case_prod_beta Let_def)
qed

lemma dragging_on:
  assumes "click_start_time s = Some t0" and "is_dragging s"
    and "\<forall>inp\<in>set inputs. pinched inp"
  shows "map flags (fst (update_all s inputs)) = replicate (length inputs) (False, True, False)
       \<and> click_start_time (snd (update_all s inputs)) = Some t0
       \<and> is_dragging (snd (update_all s inputs))
       \<and> vm_config (snd (update_all s inputs)) = vm_config s"
  using assms
proof (induction inputs arbitrary: s)
  case Nil
  then show ?case by simp
next
  case (Cons inp inputs)
  obtain px py t where inp: "inp = (True, px, py, t)"
    using Cons.prems(3) by (cases inp) (auto simp: pinched_def)
  let ?s1 = "snd (update_state s True px py t)"
  note step = update_pinched [of s px py t]
  have s1: "click_start_time ?s1 = Some t0" "is_dragging ?s1" "vm_config ?s1 = vm_config s"
    and f1: "flags (fst (update_state s True px py t)) = (False, True, False)"
    using step Cons.prems(1,2) by simp_all
  have "map flags (fst (update_all ?s1 inputs)) = replicate (length inputs) (False, True, False)
       \<and> click_start_time (snd (update_all ?s1 inputs)) = Some t0
       \<and> is_dragging (snd (update_all ?s1 inputs))
       \<and> vm_config (snd (update_all ?s1 inputs)) = vm_config ?s1"
    using Cons.prems(3) s1 by (intro Cons.IH) simp_all
  then show ?case
    unfolding inp using f1 s1 by (simp add: case_prod_beta Let_def)
qed


text \<open>
  The pinch state machine alone. From a state with no pinch timer and no drag, a
  positive \<^verbatim>\<open>drag_start_delay_ms\<close>, and a pinch that starts on the input \<open>first\<close> and
  is held over the inputs \<open>pre\<close>, all earlier than the delay: a release before the delay
  gives the only click and no drag; a pinch still held on an input \<open>hit\<close> at or past the
  delay gives a drag on that input and on every pinched input after it, and the release
  gives \<^verbatim>\<open>release\<close>.
\<close>

lemma pinch_machine_click_or_drag:
  assumes "0 < drag_start_delay_ms (vm_config s)"
    and "click_start_time s = None" and "\<not> is_dragging s"
    and "pinched first"
    and "\<forall>inp\<in>set pre. pinched inp
           \<and> (input_time inp - input_time first) * 1000
               < real_of_int (drag_start_delay_ms (vm_config s))"
    and "pinched hit" and "\<forall>inp\<in>set held. pinched inp" and "\<not> pinched rel"
  shows "((input_time rel - input_time first) * 1000
            < real_of_int (drag_start_delay_ms (vm_config s)) \<longrightarrow>
          map flags (fst (update_all s (first # pre @ [rel])))
            = replicate (Suc (length pre)) (False, False, False) @ [(True, False, False)])
       \<and> (real_of_int (drag_start_delay_ms (vm_config s))
            \<le> (input_time hit - input_time first) * 1000 \<longrightarrow>
          map flags (fst (update_all s (first # pre @ [hit] @ held @ [rel])))
            = replicate (Suc (length pre)) (False, False, False)
              @ (False, True, False) # replicate (length held) (False, True, False)
              @ [(False, False, True)])"
proof -
  let ?D = "real_of_int (drag_start_delay_ms (vm_config s))"
  obtain px0 py0 t0 where first: "first = (True, px0, py0, t0)"
    using assms(4) by (cases first) (auto simp: pinched_def)
  obtain pxh pyh th where hit: "hit = (True, pxh, pyh, th)"
    using assms(6) by (cases hit) (auto simp: pinched_def)
  obtain pxr pyr tr where rel: "rel = (False, pxr, pyr, tr)"
    using assms(8) by (cases rel) (auto simp: pinched_def)
  let ?s1 = "snd (update_state s True px0 py0 t0)"
  have "\<not> ?D \<le> (t0 - t0) * 1000" using assms(1) by simp
  with update_pinched [of s px0 py0 t0] assms(2,3)
  have f1: "flags (fst (update_state s True px0 py0 t0)) = (False, False, False)"
    and s1: "click_start_time ?s1 = Some t0" "\<not> is_dragging ?s1" "vm_config ?s1 = vm_config s"
    by simp_all
  let ?s2 = "snd (update_all ?s1 pre)"
  have "map flags (fst (update_all ?s1 pre)) = replicate (length pre) (False, False, False)
       \<and> click_start_time ?s2 = Some t0 \<and> \<not> is_dragging ?s2 \<and> vm_config ?s2 = vm_config ?s1"
    using assms(5) s1 by (intro hold_short) (simp_all add: first input_time_def)
  then have f2: "map flags (fst (update_all ?s1 pre)) = replicate (length pre) (False, False, False)"
    and s2: "click_start_time ?s2 = Some t0" "\<not> is_dragging ?s2" "vm_config ?s2 = vm_config s"
    using s1 by simp_all
  have start: "map flags (fst (update_all s (first # pre @ tail)))
                 = replicate (Suc (length pre)) (False, False, False)
                   @ map flags (fst (update_all ?s2 tail))" for tail
    unfolding first by (simp add: case_prod_beta Let_def update_all_append f1 f2)
  have click: "map flags (fst (update_all s (first # pre @ [rel])))
            = replicate (Suc (length pre)) (False, False, False) @ [(True, False, False)]"
    if "(input_time rel - input_time first) * 1000 < ?D"
  proof -
    have "(tr - t0) * 1000 < ?D" using that by (simp add: rel first input_time_def)
    with update_released [OF s2(1), of pxr pyr tr] s2
    have "flags (fst (update_state ?s2 False pxr pyr tr)) = (True, False, False)" by simp
    then show ?thesis
      unfolding start rel by (simp add: case_prod_beta Let_def)
  qed
  have drag: "map flags (fst (update_all s (first # pre @ [hit] @ held @ [rel])))
            = replicate (Suc (length pre)) (False, False, False)
              @ (False, True, False) # replicate (length held) (False, True, False)
              @ [(False, False, True)]"
    if "?D \<le> (input_time hit - input_time first) * 1000"
  proof -
    let ?s3 = "snd (update_state ?s2 True pxh pyh th)"
    have "?D \<le> (th - t0) * 1000" using that by (simp add: hit first input_time_def)
    with update_pinched [of ?s2 pxh pyh th] s2
    have f3: "flags (fst (update_state ?s2 True pxh pyh th)) = (False, True, False)"
      and s3: "click_start_time ?s3 = Some t0" "is_dragging ?s3"
      by simp_all
    let ?s4 = "snd (update_all ?s3 held)"
    from dragging_on [OF s3 assms(7)]
    have f4: "map flags (fst (update_all ?s3 held)) = replicate (length held) (False, True, False)"
      and s4: "click_start_time ?s4 = Some t0" "is_dragging ?s4"
      by simp_all
    from update_released [OF s4(1), of pxr pyr tr] s4
    have f5: "flags (fst (update_state ?s4 False pxr pyr tr)) = (False, False, True)" by simp
    have "map flags (fst (update_all ?s2 ([hit] @ held @ [rel])))
            = (False, True, False) # replicate (length held) (False, True, False)
              @ [(False, False, True)]"
      unfolding hit rel by (simp add: case_prod_beta Let_def update_all_append f3 f4 f5)
    then show ?thesis unfolding start by simp
  qed
  from click drag show ?thesis by blast
qed

lemma new_mouse_fields:
  "drag_start_delay_ms (vm_config new_mouse) = 200"
  "click_start_time new_mouse = None" "\<not> is_dragging new_mouse"
  by (simp_all add: new_mouse_def new_mouse_classifier_def default_mouse_config_def)

lemma pinch_machine_sample:
  "map flags (fst (update_all new_mouse (pinches_at [0, 1 / 10] @ [release_at (15 / 100)])))
     = [(False, False, False), (False, False, False), (True, False, False)]
   \<and> map flags (fst (update_all new_mouse
        (pinches_at [0, 1 / 10, 2 / 10, 3 / 10] @ [release_at (5 / 10)])))
     = [(False, False, False), (False, False, False), (False, True, False),
        (False, True, False), (False, False, True)]"
  using pinch_machine_click_or_drag
    [of new_mouse "(True, 100, 100, 0)" "pinches_at [1 / 10]" "(True, 100, 100, 2 / 10)"
        "pinches_at [3 / 10]" "release_at (15 / 100)"]
    pinch_machine_click_or_drag
    [of new_mouse "(True, 100, 100, 0)" "pinches_at [1 / 10]" "(True, 100, 100, 2 / 10)"
        "pinches_at [3 / 10]" "release_at (5 / 10)"]
  by (simp add: new_mouse_fields pinches_at_def release_at_def pinched_def input_time_def)

lemma pinch_machine_drag_sample:
  "map cmd_drag (fst (update_all new_mouse
        (pinches_at [0, 1 / 10, 2 / 10, 3 / 10, 4 / 10] @ [release_at (5 / 10)])))
     = [False, False, True, True, True, False]"
  by (simp add: new_mouse_def new_mouse_classifier_def default_mouse_config_def pinches_at_def
      release_at_def update_state_def Let_def)

subsection \<open>Classifiers on a frame without hands\<close>











subsection \<open>Virtual-mouse classifier: the emitted results\<close>

lemma update_state_flags_cong:
  assumes "click_start_time s = click_start_time s'" and "is_dragging s = is_dragging s'"
    and "vm_config s = vm_config s'"
  shows "flags (fst (update_state s b px py t)) = flags (fst (update_state s' b px' py' t))
       \<and> click_start_time (snd (update_state s b px py t))
           = click_start_time (snd (update_state s' b px' py' t))
       \<and> is_dragging (snd (update_state s b px py t))
           = is_dragging (snd (update_state s' b px' py' t))
       \<and> vm_config (snd (update_state s b px py t)) = vm_config s'
       \<and> vm_config (snd (update_state s' b px' py' t)) = vm_config s'
       \<and> vm_filter (snd (update_state s b px py t)) = vm_filter s"
  using assms
  by (cases b; cases "click_start_time s'")
     (auto simp: update_state_def flags_def Let_def)

lemma filter_2d_total:
  assumes "filter_ok (filter_x f)" and "filter_ok (filter_y f)"
  shows "\<exists>out f'. one_euro_filter_2d x y timestamp now f = Inr (out, f')
           \<and> filter_ok (filter_x f') \<and> filter_ok (filter_y f')"
proof -
  from one_euro_filter_char [OF assms(1), of x timestamp now]
  obtain ox fx where x: "one_euro_filter x timestamp now (filter_x f) = Inr (ox, fx)"
    and okx: "filter_ok fx" by blast
  from one_euro_filter_char [OF assms(2), of y timestamp now]
  obtain oy fy where y: "one_euro_filter y timestamp now (filter_y f) = Inr (oy, fy)"
    and oky: "filter_ok fy" by blast
  show ?thesis
    using x y okx oky by (simp add: one_euro_filter_2d_def)
qed

lemma mouse_classify_step:
  assumes ok: "mouse_ok s" and ptr: "shows_pointer (vm_config s) extraction"
  shows "\<exists>r s' px py. mouse_classify s extraction t latency = Inr (r, s')
       \<and> result_flags r
           = flags (fst (update_state s (shows_pinch (vm_config s) extraction) px py t))
       \<and> click_start_time s'
           = click_start_time (snd (update_state s (shows_pinch (vm_config s) extraction) px py t))
       \<and> is_dragging s'
           = is_dragging (snd (update_state s (shows_pinch (vm_config s) extraction) px py t))
       \<and> vm_config s' = vm_config s \<and> mouse_ok s'"
proof -
  from ptr obtain hand
    where hand: "get_preferred_hand (vm_preferred_hand (vm_config s)) extraction = Some hand"
      and len: "(length (landmarks hand) < 21) = False"
      and pointing: "(require_pointing_gesture (vm_config s) \<and> \<not> check_pointing (landmarks hand))
                       = False"
    by (auto simp: shows_pointer_def split: option.splits)
  have pinch: "shows_pinch (vm_config s) extraction
                 = (thumb_index_distance (landmarks hand) < click_threshold (vm_config s))"
    by (simp add: shows_pinch_def hand)
  obtain mapped where mapped:
    "map_to_screen s (lm_x (landmarks hand ! 8)) (lm_y (landmarks hand ! 8)) = Inr mapped"
    using ok by (auto simp: map_to_screen_def mouse_ok_def Let_def)
  obtain smoothed filter' where smooth_on:
    "vm_smoothing_enabled (vm_config s) \<Longrightarrow>
       one_euro_filter_2d (fst mapped) (snd mapped) (Some t) t (vm_filter s)
         = Inr (smoothed, filter')"
    and smooth_off:
    "\<not> vm_smoothing_enabled (vm_config s) \<Longrightarrow> smoothed = mapped \<and> filter' = vm_filter s"
    and ok': "vm_smoothing_enabled (vm_config s) \<longrightarrow>
                filter_ok (filter_x filter') \<and> filter_ok (filter_y filter')"
  proof (cases "vm_smoothing_enabled (vm_config s)")
    case True
    then have "filter_ok (filter_x (vm_filter s))" "filter_ok (filter_y (vm_filter s))"
      using ok by (simp_all add: mouse_ok_def)
    from filter_2d_total [OF this, of "fst mapped" "snd mapped" "Some t" t] True that
    show ?thesis by auto
  next
    case False
    with that [of mapped "vm_filter s"] show ?thesis by simp
  qed
  let ?px = "py_int (fst smoothed)" and ?py = "py_int (snd smoothed)"
  let ?s1 = "s\<lparr>vm_filter := filter', last_position := (?px, ?py)\<rparr>"
  let ?b = "thumb_index_distance (landmarks hand) < click_threshold (vm_config s)"
  let ?u = "update_state ?s1 ?b ?px ?py t"
  have run: "mouse_classify s extraction t latency
      = Inr (mouse_create_result (snd ?u) latency
               (if cmd_drag (fst ?u) then PINCH else if cmd_click (fst ?u) then PINCH
                else if check_pointing (landmarks hand) then POINTING else NONE)
               (hand_confidence hand)
               \<lparr>kw_cursor_x = Some ?px, kw_cursor_y = Some ?py,
                kw_click = Some (cmd_click (fst ?u)), kw_drag = Some (cmd_drag (fst ?u)),
                kw_release = Some (cmd_release (fst ?u)),
                kw_pinch = Some (thumb_index_distance (landmarks hand))\<rparr>, snd ?u)"
  proof (cases "vm_smoothing_enabled (vm_config s)")
    case True
    show ?thesis
      unfolding mouse_classify_def Let_def
      by (simp add: hand len pointing mapped True smooth_on [OF True] case_prod_beta)
  next
    case False
    show ?thesis
      unfolding mouse_classify_def Let_def
      by (simp add: hand len pointing mapped False smooth_off [OF False] case_prod_beta)
  qed
  note cong = update_state_flags_cong [of ?s1 s ?b ?px ?py t ?px ?py]
  have flags: "result_flags (mouse_create_result (snd ?u) latency g c
               \<lparr>kw_cursor_x = Some ?px, kw_cursor_y = Some ?py,
                kw_click = Some (cmd_click (fst ?u)), kw_drag = Some (cmd_drag (fst ?u)),
                kw_release = Some (cmd_release (fst ?u)), kw_pinch = Some d\<rparr>)
              = flags (fst ?u)" for g c d
    by (simp add: result_flags_def mouse_create_result_def flags_def)
  have ok2: "mouse_ok (snd ?u)"
    using ok ok' cong by (simp add: mouse_ok_def)
  show ?thesis
    unfolding run pinch
    apply (rule exI [of _ "mouse_create_result (snd ?u) latency
               (if cmd_drag (fst ?u) then PINCH else if cmd_click (fst ?u) then PINCH
                else if check_pointing (landmarks hand) then POINTING else NONE)
               (hand_confidence hand)
               \<lparr>kw_cursor_x = Some ?px, kw_cursor_y = Some ?py,
                kw_click = Some (cmd_click (fst ?u)), kw_drag = Some (cmd_drag (fst ?u)),
                kw_release = Some (cmd_release (fst ?u)),
                kw_pinch = Some (thumb_index_distance (landmarks hand))\<rparr>"])
    apply (rule exI [of _ "snd ?u"])
    apply (rule exI [of _ ?px])
    apply (rule exI [of _ ?py])
    using cong ok2 flags apply simp
    done
qed

lemma mouse_classify_all_flags:
  assumes "mouse_ok s" and "\<forall>fr\<in>set frames. shows_pointer (vm_config s) (fst fr)"
    and "click_start_time s = click_start_time u" and "is_dragging s = is_dragging u"
    and "vm_config s = vm_config u"
  shows "\<exists>rs s'. mouse_classify_all s frames = Inr (rs, s')
       \<and> map result_flags rs = map flags (fst (update_all u (pinch_inputs (vm_config s) frames)))"
  using assms
proof (induction frames arbitrary: s u)
  case Nil
  then show ?case by (simp add: pinch_inputs_def)
next
  case (Cons fr frames)
  obtain extraction t latency where fr: "fr = (extraction, t, latency)"
    by (cases fr) auto
  let ?b = "shows_pinch (vm_config s) extraction"
  have ptr: "shows_pointer (vm_config s) extraction"
    using Cons.prems(2) by (simp add: fr)
  from mouse_classify_step [OF Cons.prems(1) ptr, of t latency]
  obtain r s1 px py where step: "mouse_classify s extraction t latency = Inr (r, s1)"
    and rf: "result_flags r = flags (fst (update_state s ?b px py t))"
    and c1: "click_start_time s1 = click_start_time (snd (update_state s ?b px py t))"
    and d1: "is_dragging s1 = is_dragging (snd (update_state s ?b px py t))"
    and cfg1: "vm_config s1 = vm_config s" and ok1: "mouse_ok s1"
    by blast
  let ?u1 = "snd (update_state u ?b 0 0 t)"
  note cong = update_state_flags_cong [OF Cons.prems(3,4,5), of ?b px py t 0 0]
  have "\<exists>rs s'. mouse_classify_all s1 frames = Inr (rs, s')
       \<and> map result_flags rs = map flags (fst (update_all ?u1 (pinch_inputs (vm_config s1) frames)))"
    using Cons.prems(2,5) ok1 c1 d1 cfg1 cong by (intro Cons.IH) simp_all
  then obtain rs s' where rest: "mouse_classify_all s1 frames = Inr (rs, s')"
    and flags: "map result_flags rs
                  = map flags (fst (update_all ?u1 (pinch_inputs (vm_config s) frames)))"
    using cfg1 by auto
  have "pinch_inputs (vm_config s) (fr # frames)
          = (?b, 0, 0, t) # pinch_inputs (vm_config s) frames"
    by (simp add: pinch_inputs_def fr frame_time_def)
  then show ?case
    using step rest rf flags cong by (simp add: fr case_prod_beta Let_def)
qed

lemma pinch_inputs_simps:
  "pinch_inputs cfg (fr # frames) = (shows_pinch cfg (fst fr), 0, 0, frame_time fr) # pinch_inputs cfg frames"
  "pinch_inputs cfg (xs @ ys) = pinch_inputs cfg xs @ pinch_inputs cfg ys"
  "pinch_inputs cfg [] = []"
  "length (pinch_inputs cfg frames) = length frames"
  by (simp_all add: pinch_inputs_def)

text \<open>
  C5, as the code has it. For a cursor classifier that cannot raise, with no pinch
  timer and no drag at the start and a positive \<^verbatim>\<open>drag_start_delay_ms\<close>, fed frames
  that all show it a hand to track, with a pinch that starts on the frame \<open>first\<close> and
  is held over the frames \<open>pre\<close>, all earlier than the delay: if the release frame comes
  before the delay, the results carry \<^verbatim>\<open>click=true\<close> exactly once, on the release
  frame, and never \<^verbatim>\<open>drag\<close>; if instead the pinch is still held on a frame \<open>hit\<close>
  at or past the delay, \<^verbatim>\<open>drag=true\<close> is emitted on that frame and on every pinched
  frame after it, and the release frame carries \<^verbatim>\<open>release=true\<close> (and neither click
  nor drag).
\<close>

theorem click_before_delay_drag_after:
  assumes "mouse_ok s" and "0 < drag_start_delay_ms (vm_config s)"
    and "click_start_time s = None" and "\<not> is_dragging s"
    and "\<forall>fr\<in>set (first # pre @ [hit] @ held @ [rel]). shows_pointer (vm_config s) (fst fr)"
    and "shows_pinch (vm_config s) (fst first)"
    and "\<forall>fr\<in>set pre. shows_pinch (vm_config s) (fst fr)
           \<and> (frame_time fr - frame_time first) * 1000
               < real_of_int (drag_start_delay_ms (vm_config s))"
    and "shows_pinch (vm_config s) (fst hit)"
    and "\<forall>fr\<in>set held. shows_pinch (vm_config s) (fst fr)"
    and "\<not> shows_pinch (vm_config s) (fst rel)"
  shows "((frame_time rel - frame_time first) * 1000
            < real_of_int (drag_start_delay_ms (vm_config s)) \<longrightarrow>
          (\<exists>rs s'. mouse_classify_all s (first # pre @ [rel]) = Inr (rs, s')
             \<and> map result_flags rs
                 = replicate (Suc (length pre)) (False, False, False) @ [(True, False, False)]))
       \<and> (real_of_int (drag_start_delay_ms (vm_config s))
            \<le> (frame_time hit - frame_time first) * 1000 \<longrightarrow>
          (\<exists>rs s'. mouse_classify_all s (first # pre @ [hit] @ held @ [rel]) = Inr (rs, s')
             \<and> map result_flags rs
                 = replicate (Suc (length pre)) (False, False, False)
                   @ (False, True, False) # replicate (length held) (False, True, False)
                   @ [(False, False, True)]))"
proof -
  let ?cfg = "vm_config s"
  let ?in = "\<lambda>fr. (shows_pinch ?cfg (fst fr), 0 :: int, 0 :: int, frame_time fr)"
  have machine:
    "((input_time (?in rel) - input_time (?in first)) * 1000
            < real_of_int (drag_start_delay_ms (vm_config s)) \<longrightarrow>
          map flags (fst (update_all s (?in first # pinch_inputs ?cfg pre @ [?in rel])))
            = replicate (Suc (length (pinch_inputs ?cfg pre))) (False, False, False)
              @ [(True, False, False)])
       \<and> (real_of_int (drag_start_delay_ms (vm_config s))
            \<le> (input_time (?in hit) - input_time (?in first)) * 1000 \<longrightarrow>
          map flags (fst (update_all s (?in first # pinch_inputs ?cfg pre @ [?in hit]
                                         @ pinch_inputs ?cfg held @ [?in rel])))
            = replicate (Suc (length (pinch_inputs ?cfg pre))) (False, False, False)
              @ (False, True, False) # replicate (length (pinch_inputs ?cfg held)) (False, True, False)
              @ [(False, False, True)])"
    using assms(6,7,8,9,10)
    by (intro pinch_machine_click_or_drag [OF assms(2,3,4)])
       (auto simp: pinched_def input_time_def pinch_inputs_def)
  have click: "\<exists>rs s'. mouse_classify_all s (first # pre @ [rel]) = Inr (rs, s')
             \<and> map result_flags rs
                 = replicate (Suc (length pre)) (False, False, False) @ [(True, False, False)]"
    if "(frame_time rel - frame_time first) * 1000 < real_of_int (drag_start_delay_ms (vm_config s))"
  proof -
    have "\<forall>fr\<in>set (first # pre @ [rel]). shows_pointer ?cfg (fst fr)"
      using assms(5) by simp
    from mouse_classify_all_flags [OF assms(1) this, of s]
    obtain rs s' where "mouse_classify_all s (first # pre @ [rel]) = Inr (rs, s')"
      and "map result_flags rs
             = map flags (fst (update_all s (pinch_inputs ?cfg (first # pre @ [rel]))))"
      by auto
    then show ?thesis
      using machine that by (auto simp: pinch_inputs_simps input_time_def)
  qed
  have drag: "\<exists>rs s'. mouse_classify_all s (first # pre @ [hit] @ held @ [rel]) = Inr (rs, s')
             \<and> map result_flags rs
                 = replicate (Suc (length pre)) (False, False, False)
                   @ (False, True, False) # replicate (length held) (False, True, False)
                   @ [(False, False, True)]"
    if "real_of_int (drag_start_delay_ms (vm_config s)) \<le> (frame_time hit - frame_time first) * 1000"
  proof -
    from mouse_classify_all_flags [OF assms(1) assms(5), of s]
    obtain rs s' where "mouse_classify_all s (first # pre @ [hit] @ held @ [rel]) = Inr (rs, s')"
      and "map result_flags rs
             = map flags (fst (update_all s (pinch_inputs ?cfg (first # pre @ [hit] @ held @ [rel]))))"
      by auto
    then show ?thesis
      using machine that by (auto simp: pinch_inputs_simps input_time_def)
  qed
  from click drag show ?thesis by blast
qed


lemma new_mouse_ok: "mouse_ok new_mouse"
  by (simp add: mouse_ok_def new_mouse_def new_mouse_classifier_def default_mouse_config_def
      new_one_euro_2d_def new_one_euro_def new_low_pass_def filter_ok_def low_pass_consistent_def)

lemma new_mouse_config: "vm_config new_mouse = default_mouse_config"
  by (simp add: new_mouse_def new_mouse_classifier_def)

lemma default_mouse_delay: "drag_start_delay_ms default_mouse_config = 200"
  by (simp add: default_mouse_config_def)

lemma pointer_hand_tracked:
  "get_preferred_hand ''Right'' (extraction_of [pointer_hand d]) = Some (pointer_hand d)"
  "length (landmarks (pointer_hand d)) = 21"
  "check_pointing (landmarks (pointer_hand d))"
  "0 \<le> d \<Longrightarrow> thumb_index_distance (landmarks (pointer_hand d)) = d"
  by (simp_all add: get_preferred_hand_def extraction_of_def pointer_hand_def check_pointing_def
      thumb_index_distance_def landmark_at_def numeral_nat)

lemma pointer_frame_shows:
  "shows_pointer default_mouse_config (extraction_of [pointer_hand d])"
  "0 \<le> d \<Longrightarrow> shows_pinch default_mouse_config (extraction_of [pointer_hand d]) = (d < 35 / 1000)"
  by (simp_all add: shows_pointer_def shows_pinch_def default_mouse_config_def pointer_hand_tracked)

theorem click_before_delay_drag_after_witness:
  "(\<exists>rs s'. mouse_classify_all new_mouse
               (pointer_frames (2 / 100) [0, 1 / 10] @ pointer_frames (1 / 10) [15 / 100])
             = Inr (rs, s')
          \<and> map result_flags rs
              = [(False, False, False), (False, False, False), (True, False, False)])
   \<and> (\<exists>rs s'. mouse_classify_all new_mouse
               (pointer_frames (2 / 100) [0, 1 / 10, 2 / 10, 3 / 10]
                @ pointer_frames (1 / 10) [5 / 10])
             = Inr (rs, s')
          \<and> map result_flags rs
              = [(False, False, False), (False, False, False), (False, True, False),
                 (False, True, False), (False, False, True)])"
  using click_before_delay_drag_after
    [of new_mouse "(extraction_of [pointer_hand (2 / 100)], 0, 1)"
        "pointer_frames (2 / 100) [1 / 10]" "(extraction_of [pointer_hand (2 / 100)], 2 / 10, 1)"
        "pointer_frames (2 / 100) [3 / 10]" "(extraction_of [pointer_hand (1 / 10)], 15 / 100, 1)"]
    click_before_delay_drag_after
    [of new_mouse "(extraction_of [pointer_hand (2 / 100)], 0, 1)"
        "pointer_frames (2 / 100) [1 / 10]" "(extraction_of [pointer_hand (2 / 100)], 2 / 10, 1)"
        "pointer_frames (2 / 100) [3 / 10]" "(extraction_of [pointer_hand (1 / 10)], 5 / 10, 1)"]
  by (simp add: new_mouse_ok new_mouse_fields new_mouse_config default_mouse_delay
      pointer_frame_shows pointer_frames_def frame_time_def)

theorem drag_emitted_on_every_held_frame:
  "map_option (map result_flags)
     (results_of (mouse_classify_all new_mouse
        (pointer_frames (2 / 100) [0, 1 / 10, 2 / 10, 3 / 10, 4 / 10]
         @ pointer_frames (1 / 10) [5 / 10])))
     = Some [(False, False, False), (False, False, False), (False, True, False),
             (False, True, False), (False, True, False), (False, False, True)]"
proof -
  let ?frames = "pointer_frames (2 / 100) [0, 1 / 10, 2 / 10, 3 / 10, 4 / 10]
                 @ pointer_frames (1 / 10) [5 / 10]"
  have "\<forall>fr\<in>set ?frames. shows_pointer (vm_config new_mouse) (fst fr)"
    by (simp add: pointer_frames_def new_mouse_config pointer_frame_shows)
  from mouse_classify_all_flags [OF new_mouse_ok this, of new_mouse]
  obtain rs s' where run: "mouse_classify_all new_mouse ?frames = Inr (rs, s')"
    and flags: "map result_flags rs
                  = map flags (fst (update_all new_mouse (pinch_inputs (vm_config new_mouse) ?frames)))"
    by auto
  have inputs: "pinch_inputs (vm_config new_mouse) ?frames
                  = [(True, 0, 0, 0), (True, 0, 0, 1 / 10), (True, 0, 0, 2 / 10),
                     (True, 0, 0, 3 / 10), (True, 0, 0, 4 / 10), (False, 0, 0, 5 / 10)]"
    by (simp add: pinch_inputs_def pointer_frames_def new_mouse_config pointer_frame_shows
        frame_time_def)
  have "map flags (fst (update_all new_mouse (pinch_inputs (vm_config new_mouse) ?frames)))
          = [(False, False, False), (False, False, False), (False, True, False),
             (False, True, False), (False, True, False), (False, False, True)]"
    unfolding inputs
    by (simp add: new_mouse_def new_mouse_classifier_def default_mouse_config_def
        update_state_def flags_def Let_def)
  with run flags show ?thesis by (simp add: results_of_def)
qed

end
